theory Spec2Isabelle
  imports Main
begin

section \<open>JavaScript values and objects\<close>

text \<open>
  The values that travel in the payloads of the canvas protocol: \<open>undefined\<close>,
  \<open>null\<close>, integral numbers, strings, and arrays of \<open>{x, y}\<close> points. An object
  literal is a finite map from property names to values; reading a property that
  is absent gives \<open>undefined\<close>, and a spread \<open>{...a, ...b}\<close> is \<open>a ++ b\<close>
  (the right operand wins on a shared key).
\<close>

datatype jsval =
    JUndefined
  | JNull
  | JNum int
  | JStr string
  | JPoints "(int \<times> int) list"

type_synonym jsobj = "string \<rightharpoonup> jsval"

definition get :: "jsobj \<Rightarrow> string \<Rightarrow> jsval" where
  "get obj k = (case obj k of None \<Rightarrow> JUndefined | Some v \<Rightarrow> v)"

section \<open>The operation log: class DrawingState\<close>

text \<open>
  An operation stored in the log is the object literal
  \<^verbatim>\<open>{...operation, id: this.operationCounter++, timestamp: Date.now()}\<close>
  (or \<^verbatim>\<open>{type: 'clear', id: ..., timestamp: ...}\<close>). The two properties written
  after the spread are always numbers; the record keeps them apart from the
  spread properties, and \<open>getprop\<close> reads a property of the literal: a
  property written later in the literal overrides a spread property of the same
  name. Numbers are JavaScript doubles, which count exactly up to \<open>2^53\<close>;
  the counter is an \<open>int\<close> here.
\<close>

record operation =
  op_id :: int
  op_timestamp :: int
  op_spread :: jsobj

definition getprop :: "operation \<Rightarrow> string \<Rightarrow> jsval" where
  "getprop op k =
     (if k = ''id'' then JNum (op_id op)
      else if k = ''timestamp'' then JNum (op_timestamp op)
      else get (op_spread op) k)"

record DrawingState =
  operations :: "operation list"
  operationCounter :: int
  undoneOperations :: "int set"

text \<open>The value \<^verbatim>\<open>{ type: 'undo' | 'redo', operationId: ... }\<close> returned by undo and redo.\<close>

record change =
  change_type :: string
  operationId :: int

definition DrawingState_new :: DrawingState where
  "DrawingState_new = \<lparr>operations = [], operationCounter = 0, undoneOperations = {}\<rparr>"

text \<open>\<open>now\<close> is the value that \<^verbatim>\<open>Date.now()\<close> returns during the call.\<close>

definition addOperation :: "jsobj \<Rightarrow> int \<Rightarrow> DrawingState \<Rightarrow> operation \<times> DrawingState" where
  "addOperation operation now s =
     (let op = \<lparr>op_id = operationCounter s, op_timestamp = now, op_spread = operation\<rparr>
      in (op, \<lparr>operations = operations s @ [op],
               operationCounter = operationCounter s + 1,
               undoneOperations = {}\<rparr>))"

text \<open>
  The loop of \<open>undo\<close>: \<^verbatim>\<open>for (let i = length - 1; i >= 0; i--)\<close>. The third
  argument is \<open>i + 1\<close>, so \<open>0\<close> is the exit of the loop.
\<close>

fun undo_loop :: "operation list \<Rightarrow> int set \<Rightarrow> nat \<Rightarrow> int option" where
  "undo_loop ops undone 0 = None"
| "undo_loop ops undone (Suc i) =
     (if op_id (ops ! i) \<notin> undone then Some (op_id (ops ! i))
      else undo_loop ops undone i)"

definition undo :: "DrawingState \<Rightarrow> change option \<times> DrawingState" where
  "undo s =
     (case undo_loop (operations s) (undoneOperations s) (length (operations s)) of
        Some i \<Rightarrow>
          (Some \<lparr>change_type = ''undo'', operationId = i\<rparr>,
           s\<lparr>undoneOperations := insert i (undoneOperations s)\<rparr>)
      | None \<Rightarrow> (None, s))"

text \<open>The loop of \<open>redo\<close>: \<^verbatim>\<open>for (const op of this.operations)\<close>, carrying \<open>lastUndoneId\<close>.\<close>

fun redo_loop :: "operation list \<Rightarrow> int set \<Rightarrow> int \<Rightarrow> int" where
  "redo_loop [] undone lastUndoneId = lastUndoneId"
| "redo_loop (op # ops) undone lastUndoneId =
     redo_loop ops undone
       (if op_id op \<in> undone \<and> op_id op > lastUndoneId then op_id op else lastUndoneId)"

definition redo :: "DrawingState \<Rightarrow> change option \<times> DrawingState" where
  "redo s =
     (let lastUndoneId = redo_loop (operations s) (undoneOperations s) (- 1)
      in if lastUndoneId \<noteq> - 1
         then (Some \<lparr>change_type = ''redo'', operationId = lastUndoneId\<rparr>,
               s\<lparr>undoneOperations := undoneOperations s - {lastUndoneId}\<rparr>)
         else (None, s))"

definition getActiveOperations :: "DrawingState \<Rightarrow> operation list" where
  "getActiveOperations s = filter (\<lambda>op. op_id op \<notin> undoneOperations s) (operations s)"

definition clear :: "int \<Rightarrow> DrawingState \<Rightarrow> operation \<times> DrawingState" where
  "clear now s =
     (let clearOp = \<lparr>op_id = operationCounter s, op_timestamp = now,
                     op_spread = [''type'' \<mapsto> JStr ''clear'']\<rparr>
      in (clearOp, \<lparr>operations = operations s @ [clearOp],
                    operationCounter = operationCounter s + 1,
                    undoneOperations = {}\<rparr>))"

text \<open>A sequence of calls on one log, for statements about every reachable log state.\<close>

datatype call = AddOperation jsobj int | Clear int | Undo | Redo

fun exec :: "DrawingState \<Rightarrow> call \<Rightarrow> DrawingState" where
  "exec s (AddOperation operation now) = snd (addOperation operation now s)"
| "exec s (Clear now) = snd (clear now s)"
| "exec s Undo = snd (undo s)"
| "exec s Redo = snd (redo s)"

definition run :: "call list \<Rightarrow> DrawingState" where
  "run calls = foldl exec DrawingState_new calls"

section \<open>Rooms: class RoomManager\<close>

text \<open>
  A user's \<open>name\<close> is whatever value the client sent as \<open>userName\<close> when that
  value is truthy, so it is a \<open>jsval\<close>. A JavaScript \<open>Map\<close> keeps its keys in
  insertion order; \<open>users\<close> is an association list with distinct keys.
\<close>

record user =
  user_id :: string
  user_name :: jsval
  user_color :: string
  user_cursor :: jsval
  user_joinedAt :: int

record room =
  room_id :: string
  drawingState :: DrawingState
  users :: "(string \<times> user) list"
  usedColors :: "string set"
  createdAt :: int

type_synonym RoomManager = "string \<rightharpoonup> room"

definition userColors :: "string list" where
  "userColors =
     [''#FF6B6B'', ''#4ECDC4'', ''#45B7D1'', ''#FFA07A'',
      ''#98D8C8'', ''#F7DC6F'', ''#BB8FCE'', ''#85C1E2'',
      ''#F8B739'', ''#52B788'', ''#E76F51'', ''#2A9D8F'']"

text \<open>\<^verbatim>\<open>Map.prototype.set\<close> and \<^verbatim>\<open>Map.prototype.delete\<close>.\<close>

fun map_set :: "(string \<times> 'v) list \<Rightarrow> string \<Rightarrow> 'v \<Rightarrow> (string \<times> 'v) list" where
  "map_set [] k v = [(k, v)]"
| "map_set ((k', v') # m) k v =
     (if k' = k then (k, v) # m else (k', v') # map_set m k v)"

fun map_delete :: "(string \<times> 'v) list \<Rightarrow> string \<Rightarrow> (string \<times> 'v) list" where
  "map_delete [] k = []"
| "map_delete ((k', v') # m) k = (if k' = k then m else (k', v') # map_delete m k)"

text \<open>The truthiness test of \<^verbatim>\<open>||\<close>; an array is an object and so truthy.\<close>

fun js_truthy :: "jsval \<Rightarrow> bool" where
  "js_truthy JUndefined = False"
| "js_truthy JNull = False"
| "js_truthy (JNum n) = (n \<noteq> 0)"
| "js_truthy (JStr s) = (s \<noteq> [])"
| "js_truthy (JPoints ps) = True"

text \<open>The decimal digits of a number, as a template literal prints it.\<close>

function string_of_nat :: "nat \<Rightarrow> string" where
  "string_of_nat n =
     (if n < 10 then [''0123456789'' ! n]
      else string_of_nat (n div 10) @ [''0123456789'' ! (n mod 10)])"
  by pat_completeness auto
termination
  by (relation "measure (\<lambda>n. n)") auto

declare string_of_nat.simps [simp del]

definition getRoom :: "string \<Rightarrow> int \<Rightarrow> RoomManager \<Rightarrow> room \<times> RoomManager" where
  "getRoom roomId now rooms =
     (case rooms roomId of
        None \<Rightarrow>
          (let r = \<lparr>room_id = roomId, drawingState = DrawingState_new, users = [],
                    usedColors = {}, createdAt = now\<rparr>
           in (r, rooms(roomId \<mapsto> r)))
      | Some r \<Rightarrow> (r, rooms))"

text \<open>\<open>name\<close> is \<^verbatim>\<open>userInfo.name\<close>.\<close>

definition addUser :: "string \<Rightarrow> string \<Rightarrow> jsval \<Rightarrow> int \<Rightarrow> RoomManager \<Rightarrow> user \<times> RoomManager" where
  "addUser roomId socketId name now rooms =
     (let (room, rooms1) = getRoom roomId now rooms;
          availableColors = filter (\<lambda>color. color \<notin> usedColors room) userColors;
          color = (if length availableColors > 0 then availableColors ! 0
                   else userColors ! (length (users room) mod length userColors));
          user = \<lparr>user_id = socketId,
                  user_name = (if js_truthy name then name
                               else JStr (''User'' @ string_of_nat (length (users room) + 1))),
                  user_color = color, user_cursor = JNull, user_joinedAt = now\<rparr>
      in (user,
          rooms1(roomId \<mapsto> room\<lparr>usedColors := insert color (usedColors room),
                                 users := map_set (users room) socketId user\<rparr>)))"

text \<open>
  \<open>removeUser\<close> without its timer; \<open>roomCleanup\<close> is the callback that the timer
  runs five minutes later.
\<close>

definition removeUser :: "string \<Rightarrow> string \<Rightarrow> RoomManager \<Rightarrow> RoomManager" where
  "removeUser roomId socketId rooms =
     (case rooms roomId of
        None \<Rightarrow> rooms
      | Some room \<Rightarrow>
          (case map_of (users room) socketId of
             None \<Rightarrow> rooms
           | Some user \<Rightarrow>
               rooms(roomId \<mapsto> room\<lparr>usedColors := usedColors room - {user_color user},
                                     users := map_delete (users room) socketId\<rparr>)))"

definition roomCleanup :: "string \<Rightarrow> RoomManager \<Rightarrow> RoomManager" where
  "roomCleanup roomId rooms =
     (case rooms roomId of
        None \<Rightarrow> rooms
      | Some currentRoom \<Rightarrow>
          (if length (users currentRoom) = 0 then rooms(roomId := None) else rooms))"

definition updateUserCursor :: "string \<Rightarrow> string \<Rightarrow> jsval \<Rightarrow> RoomManager \<Rightarrow> RoomManager" where
  "updateUserCursor roomId socketId cursor rooms =
     (case rooms roomId of
        None \<Rightarrow> rooms
      | Some room \<Rightarrow>
          (case map_of (users room) socketId of
             None \<Rightarrow> rooms
           | Some user \<Rightarrow>
               rooms(roomId \<mapsto>
                 room\<lparr>users := map_set (users room) socketId (user\<lparr>user_cursor := cursor\<rparr>)\<rparr>)))"

definition getRoomUsers :: "string \<Rightarrow> RoomManager \<Rightarrow> user list" where
  "getRoomUsers roomId rooms =
     (case rooms roomId of None \<Rightarrow> [] | Some room \<Rightarrow> map snd (users room))"

section \<open>The gateway: the connection handler of server.js\<close>

text \<open>
  The variables that the handler closes over for one socket: \<open>socket.id\<close>,
  \<open>currentRoom\<close> and \<open>currentUser\<close> (\<open>None\<close> is \<open>null\<close>).
\<close>

record connection =
  socket_id :: string
  currentRoom :: string
  currentUser :: "user option"

definition on_connection :: "string \<Rightarrow> connection" where
  "on_connection sid = \<lparr>socket_id = sid, currentRoom = ''default'', currentUser = None\<rparr>"

text \<open>
  What a handler sends: \<open>ToSocket\<close> is \<^verbatim>\<open>socket.emit\<close>, \<open>ToRoom\<close> is
  \<^verbatim>\<open>io.to(room).emit\<close>, \<open>ToOthers room sid\<close> is \<^verbatim>\<open>socket.to(room).emit\<close>.
\<close>

datatype target = ToSocket string | ToRoom string | ToOthers string string

datatype message =
    InitCanvas user DrawingState "user list"
  | UserJoined user "user list"
  | UserLeft string jsval "user list"
  | DrawStroke operation
  | CursorMove string jsval jsval jsval
  | UndoMsg change
  | RedoMsg change
  | ClearCanvas operation

type_synonym emission = "target \<times> message"

text \<open>The payload of \<open>join-room\<close>: \<open>roomId\<close> may be absent, \<open>userName\<close> is any value.\<close>

record join_data =
  jd_roomId :: "string option"
  jd_userName :: jsval

definition on_join_room ::
  "join_data \<Rightarrow> int \<Rightarrow> RoomManager \<times> connection \<Rightarrow> (RoomManager \<times> connection) \<times> emission list" where
  "on_join_room data now = (\<lambda>(rooms, conn).
     let roomId = (case jd_roomId data of None \<Rightarrow> ''default'' | Some r \<Rightarrow> r);
         (user, rooms1) = addUser roomId (socket_id conn) (jd_userName data) now rooms;
         (room, rooms2) = getRoom roomId now rooms1
     in ((rooms2, conn\<lparr>currentRoom := roomId, currentUser := Some user\<rparr>),
         [(ToSocket (socket_id conn),
             InitCanvas user (drawingState room) (getRoomUsers roomId rooms2)),
          (ToOthers roomId (socket_id conn),
             UserJoined user (getRoomUsers roomId rooms2))]))"

text \<open>\<^verbatim>\<open>currentUser?.name\<close>\<close>

definition currentUser_name :: "connection \<Rightarrow> jsval" where
  "currentUser_name conn = (case currentUser conn of None \<Rightarrow> JUndefined | Some u \<Rightarrow> user_name u)"

definition currentUser_color :: "connection \<Rightarrow> jsval" where
  "currentUser_color conn =
     (case currentUser conn of None \<Rightarrow> JUndefined | Some u \<Rightarrow> JStr (user_color u))"

definition on_draw_stroke ::
  "jsobj \<Rightarrow> int \<Rightarrow> RoomManager \<times> connection \<Rightarrow> (RoomManager \<times> connection) \<times> emission list" where
  "on_draw_stroke data now = (\<lambda>(rooms, conn).
     let (room, rooms1) = getRoom (currentRoom conn) now rooms;
         (operation, ds) =
           addOperation
             ([''type'' \<mapsto> JStr ''stroke'',
               ''userId'' \<mapsto> JStr (socket_id conn),
               ''userName'' \<mapsto> currentUser_name conn] ++ data)
             now (drawingState room)
     in ((rooms1(currentRoom conn \<mapsto> room\<lparr>drawingState := ds\<rparr>), conn),
         [(ToRoom (currentRoom conn), DrawStroke operation)]))"

definition on_cursor_move ::
  "jsval \<Rightarrow> RoomManager \<times> connection \<Rightarrow> (RoomManager \<times> connection) \<times> emission list" where
  "on_cursor_move cursor = (\<lambda>(rooms, conn).
     ((updateUserCursor (currentRoom conn) (socket_id conn) cursor rooms, conn),
      [(ToOthers (currentRoom conn) (socket_id conn),
          CursorMove (socket_id conn) (currentUser_name conn) (currentUser_color conn) cursor)]))"

definition on_undo ::
  "int \<Rightarrow> RoomManager \<times> connection \<Rightarrow> (RoomManager \<times> connection) \<times> emission list" where
  "on_undo now = (\<lambda>(rooms, conn).
     let (room, rooms1) = getRoom (currentRoom conn) now rooms;
         (undoResult, ds) = undo (drawingState room)
     in ((rooms1(currentRoom conn \<mapsto> room\<lparr>drawingState := ds\<rparr>), conn),
         (case undoResult of
            Some r \<Rightarrow> [(ToRoom (currentRoom conn), UndoMsg r)]
          | None \<Rightarrow> [])))"

definition on_redo ::
  "int \<Rightarrow> RoomManager \<times> connection \<Rightarrow> (RoomManager \<times> connection) \<times> emission list" where
  "on_redo now = (\<lambda>(rooms, conn).
     let (room, rooms1) = getRoom (currentRoom conn) now rooms;
         (redoResult, ds) = redo (drawingState room)
     in ((rooms1(currentRoom conn \<mapsto> room\<lparr>drawingState := ds\<rparr>), conn),
         (case redoResult of
            Some r \<Rightarrow> [(ToRoom (currentRoom conn), RedoMsg r)]
          | None \<Rightarrow> [])))"

definition on_clear_canvas ::
  "int \<Rightarrow> RoomManager \<times> connection \<Rightarrow> (RoomManager \<times> connection) \<times> emission list" where
  "on_clear_canvas now = (\<lambda>(rooms, conn).
     let (room, rooms1) = getRoom (currentRoom conn) now rooms;
         (clearOp, ds) = clear now (drawingState room)
     in ((rooms1(currentRoom conn \<mapsto> room\<lparr>drawingState := ds\<rparr>), conn),
         [(ToRoom (currentRoom conn), ClearCanvas clearOp)]))"

text \<open>
  \<^verbatim>\<open>if (currentRoom && currentUser)\<close>: the empty string is falsy, a user object is
  truthy.
\<close>

definition on_disconnect ::
  "RoomManager \<times> connection \<Rightarrow> (RoomManager \<times> connection) \<times> emission list" where
  "on_disconnect = (\<lambda>(rooms, conn).
     (case currentUser conn of
        None \<Rightarrow> ((rooms, conn), [])
      | Some u \<Rightarrow>
          (if currentRoom conn = [] then ((rooms, conn), [])
           else
             (let rooms1 = removeUser (currentRoom conn) (socket_id conn) rooms
              in ((rooms1, conn),
                  [(ToOthers (currentRoom conn) (socket_id conn),
                      UserLeft (socket_id conn) (user_name u)
                        (getRoomUsers (currentRoom conn) rooms1))])))))"

text \<open>
  The log of a room. \<open>getRoom\<close> creates a missing room with the empty log, so the
  log of a room that does not exist yet is the empty one.
\<close>

definition room_log :: "RoomManager \<Rightarrow> string \<Rightarrow> DrawingState" where
  "room_log rooms roomId =
     (case rooms roomId of None \<Rightarrow> DrawingState_new | Some room \<Rightarrow> drawingState room)"

text \<open>
  The whole process: the rooms and the open sockets. Events of many sockets arrive
  one at a time and each handler runs to its end. \<open>ETimer\<close> is the callback of
  the timer that \<open>removeUser\<close> starts; it may run at any moment here.
\<close>

record gateway =
  gw_rooms :: RoomManager
  gw_conns :: "string \<rightharpoonup> connection"

datatype event =
    EConnection string
  | EJoinRoom string join_data int
  | EDrawStroke string jsobj int
  | ECursorMove string jsval
  | EUndo string int
  | ERedo string int
  | EClearCanvas string int
  | EDisconnect string
  | ETimer string

definition gateway_init :: gateway where
  "gateway_init = \<lparr>gw_rooms = Map.empty, gw_conns = Map.empty\<rparr>"

definition deliver ::
  "(RoomManager \<times> connection \<Rightarrow> (RoomManager \<times> connection) \<times> emission list) \<Rightarrow>
   string \<Rightarrow> gateway \<Rightarrow> gateway \<times> emission list" where
  "deliver handler sid g =
     (case gw_conns g sid of
        None \<Rightarrow> (g, [])
      | Some conn \<Rightarrow>
          (case handler (gw_rooms g, conn) of
             ((rooms, conn'), out) \<Rightarrow>
               (\<lparr>gw_rooms = rooms, gw_conns = (gw_conns g)(sid \<mapsto> conn')\<rparr>, out)))"

fun gateway_step :: "gateway \<Rightarrow> event \<Rightarrow> gateway \<times> emission list" where
  "gateway_step g (EConnection sid) =
     (g\<lparr>gw_conns := (gw_conns g)(sid \<mapsto> on_connection sid)\<rparr>, [])"
| "gateway_step g (EJoinRoom sid data now) = deliver (on_join_room data now) sid g"
| "gateway_step g (EDrawStroke sid data now) = deliver (on_draw_stroke data now) sid g"
| "gateway_step g (ECursorMove sid cursor) = deliver (on_cursor_move cursor) sid g"
| "gateway_step g (EUndo sid now) = deliver (on_undo now) sid g"
| "gateway_step g (ERedo sid now) = deliver (on_redo now) sid g"
| "gateway_step g (EClearCanvas sid now) = deliver (on_clear_canvas now) sid g"
| "gateway_step g (EDisconnect sid) =
     (case deliver on_disconnect sid g of
        (g', out) \<Rightarrow> (g'\<lparr>gw_conns := (gw_conns g')(sid := None)\<rparr>, out))"
| "gateway_step g (ETimer roomId) = (g\<lparr>gw_rooms := roomCleanup roomId (gw_rooms g)\<rparr>, [])"

definition gateway_run :: "event list \<Rightarrow> gateway" where
  "gateway_run events = foldl (\<lambda>g e. fst (gateway_step g e)) gateway_init events"

section \<open>The replay engine: class CanvasManager\<close>

text \<open>
  The canvas is the sequence of strokes painted since the last
  \<^verbatim>\<open>clearRect(0, 0, width, height)\<close>, which erases every pixel. A stroke is
  recorded with the arguments of \<open>renderStroke\<close>.
\<close>

datatype js_error = TypeError

datatype draw_call = StrokeCall "(int \<times> int) list" jsval jsval bool

type_synonym canvas = "draw_call list"

record CanvasManager =
  cm_operations :: "operation list"
  cm_undoneOperations :: "int set"
  cm_canvas :: canvas

text \<open>
  \<open>renderStroke\<close> returns at once on an empty array. With one point, or a
  one-character string, \<^verbatim>\<open>points[1].x\<close> reads a property of \<open>undefined\<close>;
  \<open>undefined\<close>, \<open>null\<close> and numbers fail already at \<^verbatim>\<open>points.length\<close> or
  \<^verbatim>\<open>points[0].x\<close>. A longer string gives coordinates that are all \<open>undefined\<close>,
  which the canvas ignores.
\<close>

fun renderStroke :: "jsval \<Rightarrow> jsval \<Rightarrow> jsval \<Rightarrow> bool \<Rightarrow> canvas \<Rightarrow> js_error + canvas" where
  "renderStroke (JPoints []) color width isEraser cv = Inr cv"
| "renderStroke (JPoints [p]) color width isEraser cv = Inl TypeError"
| "renderStroke (JPoints ps) color width isEraser cv =
     Inr (cv @ [StrokeCall ps color width isEraser])"
| "renderStroke (JStr s) color width isEraser cv =
     (if length s = 1 then Inl TypeError else Inr cv)"
| "renderStroke points color width isEraser cv = Inl TypeError"

text \<open>
  The loop of \<open>redrawCanvas\<close>. An exception leaves the loop with the canvas as
  it is at that moment.
\<close>

fun redraw_loop :: "operation list \<Rightarrow> int set \<Rightarrow> canvas \<Rightarrow> js_error option \<times> canvas" where
  "redraw_loop [] undone cv = (None, cv)"
| "redraw_loop (op # ops) undone cv =
     (if op_id op \<in> undone then redraw_loop ops undone cv
      else if getprop op ''type'' = JStr ''stroke'' then
        (case renderStroke (getprop op ''points'') (getprop op ''color'') (getprop op ''size'')
                (getprop op ''tool'' = JStr ''eraser'') cv of
           Inl e \<Rightarrow> (Some e, cv)
         | Inr cv' \<Rightarrow> redraw_loop ops undone cv')
      else if getprop op ''type'' = JStr ''clear'' then redraw_loop ops undone []
      else redraw_loop ops undone cv)"

definition redrawCanvas :: "CanvasManager \<Rightarrow> js_error option \<times> CanvasManager" where
  "redrawCanvas s =
     (let (e, cv) = redraw_loop (cm_operations s) (cm_undoneOperations s) []
      in (e, s\<lparr>cm_canvas := cv\<rparr>))"



definition handleRedo :: "change \<Rightarrow> CanvasManager \<Rightarrow> js_error option \<times> CanvasManager" where
  "handleRedo redoData s =
     redrawCanvas (s\<lparr>cm_undoneOperations := cm_undoneOperations s - {operationId redoData}\<rparr>)"

section \<open>Well-formed logs\<close>

text \<open>The ids in the log are \<open>0, 1, 2, ...\<close> in order, the counter is the next one, and only ids of the log are tombstoned.\<close>

definition log_ok :: "DrawingState \<Rightarrow> bool" where
  "log_ok s \<longleftrightarrow>
     map op_id (operations s) = map int [0..<length (operations s)] \<and>
     operationCounter s = int (length (operations s)) \<and>
     undoneOperations s \<subseteq> op_id ` set (operations s)"

definition rooms_ok :: "RoomManager \<Rightarrow> bool" where
  "rooms_ok rooms \<longleftrightarrow> (\<forall>roomId room. rooms roomId = Some room \<longrightarrow> log_ok (drawingState room))"

section \<open>The two loops\<close>

lemma undo_loop_None:
  "undo_loop ops U n = None \<longleftrightarrow> (\<forall>j<n. op_id (ops ! j) \<in> U)"
  by (induction n) (auto simp: less_Suc_eq)

lemma undo_loop_Some:
  "undo_loop ops U n = Some i \<longleftrightarrow>
     (\<exists>k<n. op_id (ops ! k) = i \<and> i \<notin> U \<and> (\<forall>j. k < j \<and> j < n \<longrightarrow> op_id (ops ! j) \<in> U))"
proof (induction n)
  case 0
  then show ?case by simp
next
  case (Suc n)
  show ?case
  proof (cases "op_id (ops ! n) \<in> U")
    case True
    have "(\<exists>k<Suc n. op_id (ops ! k) = i \<and> i \<notin> U \<and> (\<forall>j. k < j \<and> j < Suc n \<longrightarrow> op_id (ops ! j) \<in> U))
          \<longleftrightarrow> (\<exists>k<n. op_id (ops ! k) = i \<and> i \<notin> U \<and> (\<forall>j. k < j \<and> j < n \<longrightarrow> op_id (ops ! j) \<in> U))"
      using True by (auto simp: less_Suc_eq)
    with True Suc show ?thesis by simp
  next
    case False
    have "(\<exists>k<Suc n. op_id (ops ! k) = i \<and> i \<notin> U \<and> (\<forall>j. k < j \<and> j < Suc n \<longrightarrow> op_id (ops ! j) \<in> U))
          \<longleftrightarrow> op_id (ops ! n) = i"
    proof
      assume "\<exists>k<Suc n. op_id (ops ! k) = i \<and> i \<notin> U \<and> (\<forall>j. k < j \<and> j < Suc n \<longrightarrow> op_id (ops ! j) \<in> U)"
      then obtain k where k: "k < Suc n" "op_id (ops ! k) = i"
        "\<forall>j. k < j \<and> j < Suc n \<longrightarrow> op_id (ops ! j) \<in> U" by blast
      have "k = n"
      proof (rule ccontr)
        assume "k \<noteq> n"
        with k(1) have "k < n" by simp
        with k(3) have "op_id (ops ! n) \<in> U" by simp
        with False show False by simp
      qed
      with k(2) show "op_id (ops ! n) = i" by simp
    next
      assume "op_id (ops ! n) = i"
      with False show "\<exists>k<Suc n. op_id (ops ! k) = i \<and> i \<notin> U \<and> (\<forall>j. k < j \<and> j < Suc n \<longrightarrow> op_id (ops ! j) \<in> U)"
        by (intro exI[of _ n]) auto
    qed
    with False show ?thesis by auto
  qed
qed

lemma redo_loop_Max:
  "redo_loop ops U l = Max (insert l (U \<inter> op_id ` set ops))"
proof (induction ops arbitrary: l)
  case Nil
  then show ?case by simp
next
  case (Cons a ops)
  let ?S = "U \<inter> op_id ` set ops"
  have fin: "finite ?S" by simp
  show ?case
  proof (cases "op_id a \<in> U")
    case True
    then have eq: "U \<inter> op_id ` set (a # ops) = insert (op_id a) ?S" by auto
    have "Max (insert l (insert (op_id a) ?S)) = Max (insert (max (op_id a) l) ?S)"
    proof (cases "?S = {}")
      case True
      then show ?thesis by (simp add: max.commute)
    next
      case False
      with fin show ?thesis by (simp add: max.assoc max.commute max.left_commute)
    qed
    moreover have "(if op_id a \<in> U \<and> op_id a > l then op_id a else l) = max (op_id a) l"
      using True by (simp add: max_def)
    ultimately show ?thesis unfolding eq by (simp add: Cons.IH del: Max_insert)
  next
    case False
    then have eq: "U \<inter> op_id ` set (a # ops) = U \<inter> op_id ` set ops" by auto
    show ?thesis unfolding eq using False by (simp add: Cons.IH)
  qed
qed

section \<open>Appending\<close>

lemma addOperation_state:
  "snd (addOperation operation now s) =
     \<lparr>operations = operations s @ [fst (addOperation operation now s)],
      operationCounter = operationCounter s + 1, undoneOperations = {}\<rparr>"
  by (simp add: addOperation_def Let_def)

lemma clear_state:
  "snd (clear now s) =
     \<lparr>operations = operations s @ [fst (clear now s)],
      operationCounter = operationCounter s + 1, undoneOperations = {}\<rparr>"
  by (simp add: clear_def Let_def)

section \<open>Every reachable log is well formed\<close>

lemma log_ok_new: "log_ok DrawingState_new"
  by (simp add: log_ok_def DrawingState_new_def)

lemma log_ok_addOperation: "log_ok s \<Longrightarrow> log_ok (snd (addOperation operation now s))"
  by (simp add: log_ok_def addOperation_def Let_def)

lemma log_ok_clear: "log_ok s \<Longrightarrow> log_ok (snd (clear now s))"
  by (simp add: log_ok_def clear_def Let_def)

lemma undo_loop_mem:
  "undo_loop ops U n = Some i \<Longrightarrow> n \<le> length ops \<Longrightarrow> i \<in> op_id ` set ops"
  by (induction n) (auto split: if_splits)

lemma undo_keeps_log:
  "operations (snd (undo s)) = operations s \<and> operationCounter (snd (undo s)) = operationCounter s"
  by (simp add: undo_def split: option.splits)

lemma redo_keeps_log:
  "operations (snd (redo s)) = operations s \<and> operationCounter (snd (redo s)) = operationCounter s"
  by (simp add: redo_def Let_def)

lemma undo_undone_subset:
  "undoneOperations s \<subseteq> op_id ` set (operations s) \<Longrightarrow>
   undoneOperations (snd (undo s)) \<subseteq> op_id ` set (operations s)"
  by (auto simp: undo_def split: option.splits dest: undo_loop_mem)

lemma redo_undone_subset:
  "undoneOperations (snd (redo s)) \<subseteq> undoneOperations s"
  by (auto simp: redo_def Let_def)

lemma log_ok_undo: "log_ok s \<Longrightarrow> log_ok (snd (undo s))"
  using undo_undone_subset[of s] by (simp add: log_ok_def undo_keeps_log)

lemma log_ok_redo: "log_ok s \<Longrightarrow> log_ok (snd (redo s))"
  using redo_undone_subset[of s] by (auto simp add: log_ok_def redo_keeps_log)

lemma log_ok_exec: "log_ok s \<Longrightarrow> log_ok (exec s c)"
  by (cases c) (simp_all add: log_ok_addOperation log_ok_clear log_ok_undo log_ok_redo)

lemma log_ok_foldl: "log_ok s \<Longrightarrow> log_ok (foldl exec s calls)"
  by (induction calls arbitrary: s) (simp_all add: log_ok_exec)

lemma log_ok_run: "log_ok (run calls)"
  unfolding run_def by (rule log_ok_foldl [OF log_ok_new])

lemma log_ok_ids_nonneg:
  assumes ok: "log_ok s" and i: "i \<in> undoneOperations s"
  shows "0 \<le> i"
proof -
  from ok have eq: "map op_id (operations s) = map int [0..<length (operations s)]"
    by (simp add: log_ok_def)
  from ok i have "i \<in> op_id ` set (operations s)" by (auto simp: log_ok_def)
  then have "i \<in> set (map op_id (operations s))" by simp
  then have "i \<in> set (map int [0..<length (operations s)])" by (simp only: eq)
  then show "0 \<le> i" by auto
qed

lemma log_ok_finite: "log_ok s \<Longrightarrow> finite (undoneOperations s)"
  by (auto simp: log_ok_def intro: finite_subset)

lemma redo_log_ok:
  assumes "log_ok s"
  shows "redo s =
     (if undoneOperations s = {} then (None, s)
      else (Some \<lparr>change_type = ''redo'', operationId = Max (undoneOperations s)\<rparr>,
            s\<lparr>undoneOperations := undoneOperations s - {Max (undoneOperations s)}\<rparr>))"
proof (cases "undoneOperations s = {}")
  case True
  then show ?thesis by (simp add: redo_def redo_loop_Max)
next
  case False
  let ?U = "undoneOperations s"
  have fin: "finite ?U" using assms by (rule log_ok_finite)
  have sub: "?U \<inter> op_id ` set (operations s) = ?U" using assms by (auto simp: log_ok_def)
  have "Max ?U \<in> ?U" using fin False by simp
  then have nonneg: "0 \<le> Max ?U" using assms log_ok_ids_nonneg by blast
  have "redo_loop (operations s) ?U (- 1) = max (- 1) (Max ?U)"
    using fin False by (simp add: redo_loop_Max sub)
  also have "\<dots> = Max ?U" using nonneg by simp
  finally have loop: "redo_loop (operations s) ?U (- 1) = Max ?U" .
  show ?thesis using False nonneg by (simp add: redo_def loop Let_def)
qed

section \<open>Appending, undo and redo\<close>

lemma example_two_appends:
  "run [AddOperation a ta, AddOperation b tb] =
     \<lparr>operations = [\<lparr>op_id = 0, op_timestamp = ta, op_spread = a\<rparr>,
                     \<lparr>op_id = 1, op_timestamp = tb, op_spread = b\<rparr>],
      operationCounter = 2, undoneOperations = {}\<rparr>"
  by (simp add: run_def DrawingState_new_def addOperation_def Let_def)

lemma example_three_appends:
  "run [AddOperation a ta, AddOperation b tb, AddOperation c tc] =
     \<lparr>operations = [\<lparr>op_id = 0, op_timestamp = ta, op_spread = a\<rparr>,
                     \<lparr>op_id = 1, op_timestamp = tb, op_spread = b\<rparr>,
                     \<lparr>op_id = 2, op_timestamp = tc, op_spread = c\<rparr>],
      operationCounter = 3, undoneOperations = {}\<rparr>"
  by (simp add: run_def DrawingState_new_def addOperation_def Let_def)

lemma getActive_all: "undoneOperations s = {} \<Longrightarrow> getActiveOperations s = operations s"
  by (simp add: getActiveOperations_def)

text \<open>
  Claim C1. Whatever the log state, \<open>addOperation\<close> and \<open>clear\<close> leave the
  tombstone set empty, so that every operation of the log, the new one included, is
  active afterwards. In the example the log holds A (id 0) and B (id 1), one
  \<open>undo\<close> tombstones B, and appending C gives the log A, B, C with no tombstone
  and all three active.
\<close>
theorem append_clears_tombstones:
  "undoneOperations (snd (addOperation operation now s)) = {} \<and>
   undoneOperations (snd (clear now s)) = {} \<and>
   getActiveOperations (snd (addOperation operation now s)) =
     operations s @ [fst (addOperation operation now s)] \<and>
   getActiveOperations (snd (clear now s)) = operations s @ [fst (clear now s)] \<and>
   (let s2 = run [AddOperation a ta, AddOperation b tb];
        s3 = snd (undo s2);
        s4 = snd (addOperation c tc s3)
    in map op_id (operations s2) = [0, 1] \<and>
       undoneOperations s3 = {1} \<and>
       getActiveOperations s3 = [operations s2 ! 0] \<and>
       operations s4 = operations s2 @ [fst (addOperation c tc s3)] \<and>
       map op_id (operations s4) = [0, 1, 2] \<and>
       undoneOperations s4 = {} \<and>
       getActiveOperations s4 = operations s4)"
proof -
  have 1: "undoneOperations (snd (addOperation operation now s)) = {}"
    by (simp add: addOperation_state)
  have 2: "undoneOperations (snd (clear now s)) = {}"
    by (simp add: clear_state)
  have 3: "getActiveOperations (snd (addOperation operation now s)) =
     operations s @ [fst (addOperation operation now s)]"
    by (subst getActive_all) (simp_all add: addOperation_state)
  have 4: "getActiveOperations (snd (clear now s)) = operations s @ [fst (clear now s)]"
    by (subst getActive_all) (simp_all add: clear_state)
  have 5: "(let s2 = run [AddOperation a ta, AddOperation b tb];
        s3 = snd (undo s2);
        s4 = snd (addOperation c tc s3)
    in map op_id (operations s2) = [0, 1] \<and>
       undoneOperations s3 = {1} \<and>
       getActiveOperations s3 = [operations s2 ! 0] \<and>
       operations s4 = operations s2 @ [fst (addOperation c tc s3)] \<and>
       map op_id (operations s4) = [0, 1, 2] \<and>
       undoneOperations s4 = {} \<and>
       getActiveOperations s4 = operations s4)"
    unfolding example_two_appends
    by (simp add: undo_def addOperation_def getActiveOperations_def Let_def)
  from 1 2 3 4 5 show ?thesis by blast
qed

lemma undo_None_iff:
  "fst (undo s) = None \<longleftrightarrow> (\<forall>op \<in> set (operations s). op_id op \<in> undoneOperations s)"
proof -
  have "fst (undo s) = None \<longleftrightarrow>
        undo_loop (operations s) (undoneOperations s) (length (operations s)) = None"
    by (simp add: undo_def split: option.splits)
  also have "\<dots> \<longleftrightarrow> (\<forall>j<length (operations s). op_id (operations s ! j) \<in> undoneOperations s)"
    by (rule undo_loop_None)
  also have "\<dots> \<longleftrightarrow> (\<forall>op \<in> set (operations s). op_id op \<in> undoneOperations s)"
    by (simp add: all_set_conv_all_nth)
  finally show ?thesis .
qed

lemma undo_Some:
  assumes "k < length (operations s)"
    and "op_id (operations s ! k) \<notin> undoneOperations s"
    and "\<forall>j. k < j \<and> j < length (operations s) \<longrightarrow> op_id (operations s ! j) \<in> undoneOperations s"
  shows "undo s = (Some \<lparr>change_type = ''undo'', operationId = op_id (operations s ! k)\<rparr>,
                   s\<lparr>undoneOperations := insert (op_id (operations s ! k)) (undoneOperations s)\<rparr>)"
proof -
  have "undo_loop (operations s) (undoneOperations s) (length (operations s))
          = Some (op_id (operations s ! k))"
    unfolding undo_loop_Some using assms by blast
  then show ?thesis by (simp add: undo_def)
qed

lemma example_four_undos:
  "(let s3 = run [AddOperation a ta, AddOperation b tb, AddOperation c tc];
        u1 = undo s3; u2 = undo (snd u1); u3 = undo (snd u2); u4 = undo (snd u3)
    in map op_id (operations s3) = [0, 1, 2] \<and> undoneOperations s3 = {} \<and>
       fst u1 = Some \<lparr>change_type = ''undo'', operationId = 2\<rparr> \<and>
       undoneOperations (snd u1) = {2} \<and>
       fst u2 = Some \<lparr>change_type = ''undo'', operationId = 1\<rparr> \<and>
       undoneOperations (snd u2) = {1, 2} \<and>
       fst u3 = Some \<lparr>change_type = ''undo'', operationId = 0\<rparr> \<and>
       undoneOperations (snd u3) = {0, 1, 2} \<and>
       fst u4 = None \<and> snd u4 = snd u3)"
  unfolding example_three_appends
  by (simp add: undo_def Let_def)

text \<open>
  Claim C2. \<open>undo\<close> returns nothing exactly when every entry of the log is
  tombstoned (an empty log included). Otherwise the entry at the last position \<open>k\<close>
  whose id is not tombstoned (every later entry being tombstoned) is the one whose id is
  added to the tombstone set and returned. After appending ids 0, 1, 2, four calls
  return 2, 1, 0 and nothing.
\<close>
theorem undo_picks_latest_visible:
  "(fst (undo s) = None \<longleftrightarrow> (\<forall>op \<in> set (operations s). op_id op \<in> undoneOperations s)) \<and>
   (\<forall>k. k < length (operations s) \<and> op_id (operations s ! k) \<notin> undoneOperations s \<and>
        (\<forall>j. k < j \<and> j < length (operations s) \<longrightarrow> op_id (operations s ! j) \<in> undoneOperations s)
        \<longrightarrow> undo s = (Some \<lparr>change_type = ''undo'', operationId = op_id (operations s ! k)\<rparr>,
                  s\<lparr>undoneOperations := insert (op_id (operations s ! k)) (undoneOperations s)\<rparr>)) \<and>
   (let s3 = run [AddOperation a ta, AddOperation b tb, AddOperation c tc];
        u1 = undo s3; u2 = undo (snd u1); u3 = undo (snd u2); u4 = undo (snd u3)
    in map op_id (operations s3) = [0, 1, 2] \<and> undoneOperations s3 = {} \<and>
       fst u1 = Some \<lparr>change_type = ''undo'', operationId = 2\<rparr> \<and>
       undoneOperations (snd u1) = {2} \<and>
       fst u2 = Some \<lparr>change_type = ''undo'', operationId = 1\<rparr> \<and>
       undoneOperations (snd u2) = {1, 2} \<and>
       fst u3 = Some \<lparr>change_type = ''undo'', operationId = 0\<rparr> \<and>
       undoneOperations (snd u3) = {0, 1, 2} \<and>
       fst u4 = None \<and> snd u4 = snd u3)"
  using undo_None_iff [of s] undo_Some [of _ s] example_four_undos [of a ta b tb c tc]
  by blast

theorem append_clears_tombstones_witness:
  "undoneOperations (snd (addOperation Map.empty 7
      \<lparr>operations = [\<lparr>op_id = 0, op_timestamp = 5, op_spread = Map.empty\<rparr>],
       operationCounter = 1, undoneOperations = {0}\<rparr>)) = {} \<and>
   getActiveOperations (snd (addOperation Map.empty 7
      \<lparr>operations = [\<lparr>op_id = 0, op_timestamp = 5, op_spread = Map.empty\<rparr>],
       operationCounter = 1, undoneOperations = {0}\<rparr>)) =
     [\<lparr>op_id = 0, op_timestamp = 5, op_spread = Map.empty\<rparr>,
      \<lparr>op_id = 1, op_timestamp = 7, op_spread = Map.empty\<rparr>]"
  using append_clears_tombstones [of Map.empty 7
      "\<lparr>operations = [\<lparr>op_id = 0, op_timestamp = 5, op_spread = Map.empty\<rparr>],
        operationCounter = 1, undoneOperations = {0}\<rparr>"]
  by (simp add: addOperation_def Let_def)

theorem undo_picks_latest_visible_witness:
  "undo \<lparr>operations = [\<lparr>op_id = 0, op_timestamp = 5, op_spread = Map.empty\<rparr>,
                       \<lparr>op_id = 1, op_timestamp = 6, op_spread = Map.empty\<rparr>],
         operationCounter = 2, undoneOperations = {1}\<rparr> =
     (Some \<lparr>change_type = ''undo'', operationId = 0\<rparr>,
      \<lparr>operations = [\<lparr>op_id = 0, op_timestamp = 5, op_spread = Map.empty\<rparr>,
                      \<lparr>op_id = 1, op_timestamp = 6, op_spread = Map.empty\<rparr>],
         operationCounter = 2, undoneOperations = {0, 1}\<rparr>) \<and>
   fst (undo \<lparr>operations = [\<lparr>op_id = 0, op_timestamp = 5, op_spread = Map.empty\<rparr>],
         operationCounter = 1, undoneOperations = {0}\<rparr>) = None"
proof -
  let ?s = "\<lparr>operations = [\<lparr>op_id = 0, op_timestamp = 5, op_spread = Map.empty\<rparr>,
                       \<lparr>op_id = 1, op_timestamp = 6, op_spread = Map.empty\<rparr>],
         operationCounter = 2, undoneOperations = {1::int}\<rparr>"
  let ?t = "\<lparr>operations = [\<lparr>op_id = 0, op_timestamp = 5, op_spread = Map.empty\<rparr>],
         operationCounter = 1, undoneOperations = {0::int}\<rparr>"
  have h: "0 < length (operations ?s) \<and> op_id (operations ?s ! 0) \<notin> undoneOperations ?s \<and>
        (\<forall>j. 0 < j \<and> j < length (operations ?s) \<longrightarrow> op_id (operations ?s ! j) \<in> undoneOperations ?s)"
    by (auto simp: less_Suc_eq)
  have g: "\<forall>op \<in> set (operations ?t). op_id op \<in> undoneOperations ?t" by simp
  from undo_picks_latest_visible [of ?s, THEN conjunct2, THEN conjunct1, rule_format, OF h]
    undo_picks_latest_visible [of ?t, THEN conjunct1] g
  show ?thesis by simp
qed

lemma example_three_undone:
  "run [AddOperation a ta, AddOperation b tb, AddOperation c tc, Undo, Undo, Undo] =
     \<lparr>operations = [\<lparr>op_id = 0, op_timestamp = ta, op_spread = a\<rparr>,
                     \<lparr>op_id = 1, op_timestamp = tb, op_spread = b\<rparr>,
                     \<lparr>op_id = 2, op_timestamp = tc, op_spread = c\<rparr>],
      operationCounter = 3, undoneOperations = {0, 1, 2}\<rparr>"
  by (simp add: run_def DrawingState_new_def addOperation_def undo_def Let_def)

lemma example_four_redos:
  "(let s = run [AddOperation a ta, AddOperation b tb, AddOperation c tc, Undo, Undo, Undo];
        r1 = redo s; r2 = redo (snd r1); r3 = redo (snd r2); r4 = redo (snd r3)
    in undoneOperations s = {0, 1, 2} \<and>
       fst r1 = Some \<lparr>change_type = ''redo'', operationId = 2\<rparr> \<and>
       undoneOperations (snd r1) = {0, 1} \<and>
       fst r2 = Some \<lparr>change_type = ''redo'', operationId = 1\<rparr> \<and>
       undoneOperations (snd r2) = {0} \<and>
       fst r3 = Some \<lparr>change_type = ''redo'', operationId = 0\<rparr> \<and>
       undoneOperations (snd r3) = {} \<and>
       fst r4 = None \<and> snd r4 = snd r3)"
  unfolding example_three_undone
  by (simp add: redo_def Let_def insert_Diff_if)

lemma undo_only_tombstones:
  "snd (undo s) = s\<lparr>undoneOperations := undoneOperations (snd (undo s))\<rparr>"
  by (simp add: undo_def split: option.splits)

lemma redo_only_tombstones:
  "snd (redo s) = s\<lparr>undoneOperations := undoneOperations (snd (redo s))\<rparr>"
  by (simp add: redo_def Let_def)

section \<open>The gateway\<close>

lemma getRoom_cases:
  "(rooms roomId = None \<and>
      getRoom roomId now rooms =
        (\<lparr>room_id = roomId, drawingState = DrawingState_new, users = [],
          usedColors = {}, createdAt = now\<rparr>,
         rooms(roomId \<mapsto> \<lparr>room_id = roomId, drawingState = DrawingState_new, users = [],
          usedColors = {}, createdAt = now\<rparr>))) \<or>
   (\<exists>r. rooms roomId = Some r \<and> getRoom roomId now rooms = (r, rooms))"
  by (cases "rooms roomId") (simp_all add: getRoom_def Let_def)

lemma getRoom_log: "drawingState (fst (getRoom roomId now rooms)) = room_log rooms roomId"
  by (cases "rooms roomId") (simp_all add: getRoom_def room_log_def Let_def)

lemma getRoom_snd: "snd (getRoom roomId now rooms) = rooms(roomId \<mapsto> fst (getRoom roomId now rooms))"
  by (cases "rooms roomId") (auto simp add: getRoom_def Let_def)

lemma rooms_ok_empty: "rooms_ok Map.empty"
  by (simp add: rooms_ok_def)

lemma rooms_ok_upd: "rooms_ok rooms \<Longrightarrow> log_ok (drawingState r) \<Longrightarrow> rooms_ok (rooms(roomId \<mapsto> r))"
  by (simp add: rooms_ok_def)

lemma rooms_ok_del: "rooms_ok rooms \<Longrightarrow> rooms_ok (rooms(roomId := None))"
  by (simp add: rooms_ok_def)

lemma rooms_ok_room_log: "rooms_ok rooms \<Longrightarrow> log_ok (room_log rooms roomId)"
  by (cases "rooms roomId") (auto simp: rooms_ok_def room_log_def log_ok_new)

lemma rooms_ok_getRoom:
  assumes "rooms_ok rooms"
  shows "rooms_ok (snd (getRoom roomId now rooms))" "log_ok (drawingState (fst (getRoom roomId now rooms)))"
proof -
  show 2: "log_ok (drawingState (fst (getRoom roomId now rooms)))"
    using assms by (simp add: getRoom_log rooms_ok_room_log)
  show "rooms_ok (snd (getRoom roomId now rooms))"
    by (subst getRoom_snd) (rule rooms_ok_upd [OF assms 2])
qed

lemma rooms_ok_addUser:
  assumes "rooms_ok rooms"
  shows "rooms_ok (snd (addUser roomId socketId name now rooms))"
proof -
  obtain room rooms1 where g: "getRoom roomId now rooms = (room, rooms1)" by (cases "getRoom roomId now rooms")
  from rooms_ok_getRoom [OF assms, of roomId now] g
  have "rooms_ok rooms1" "log_ok (drawingState room)" by simp_all
  then show ?thesis
    by (simp add: addUser_def g Let_def rooms_ok_upd)
qed

lemma rooms_ok_removeUser: "rooms_ok rooms \<Longrightarrow> rooms_ok (removeUser roomId socketId rooms)"
  by (auto simp: removeUser_def rooms_ok_def split: option.splits)

lemma rooms_ok_roomCleanup: "rooms_ok rooms \<Longrightarrow> rooms_ok (roomCleanup roomId rooms)"
  by (auto simp: roomCleanup_def rooms_ok_def split: option.splits)

lemma rooms_ok_updateUserCursor: "rooms_ok rooms \<Longrightarrow> rooms_ok (updateUserCursor roomId socketId cursor rooms)"
  by (auto simp: updateUserCursor_def rooms_ok_def split: option.splits)

lemma rooms_ok_on_join_room:
  assumes "rooms_ok rooms"
  shows "rooms_ok (fst (fst (on_join_room data now (rooms, conn))))"
proof -
  let ?rid = "case jd_roomId data of None \<Rightarrow> ''default'' | Some r \<Rightarrow> r"
  obtain user rooms1 where a: "addUser ?rid (socket_id conn) (jd_userName data) now rooms = (user, rooms1)"
    by (cases "addUser ?rid (socket_id conn) (jd_userName data) now rooms")
  obtain room rooms2 where g: "getRoom ?rid now rooms1 = (room, rooms2)"
    by (cases "getRoom ?rid now rooms1")
  from rooms_ok_addUser [OF assms, of ?rid "socket_id conn" "jd_userName data" now] a
  have "rooms_ok rooms1" by simp
  from rooms_ok_getRoom(1) [OF this, of ?rid now] g have "rooms_ok rooms2" by simp
  then show ?thesis by (simp add: on_join_room_def a g Let_def)
qed

lemma on_draw_stroke_rooms:
  "fst (fst (on_draw_stroke data now (rooms, conn))) =
     rooms(currentRoom conn \<mapsto>
       (fst (getRoom (currentRoom conn) now rooms))
         \<lparr>drawingState :=
            snd (addOperation
              ([''type'' \<mapsto> JStr ''stroke'', ''userId'' \<mapsto> JStr (socket_id conn),
                ''userName'' \<mapsto> currentUser_name conn] ++ data)
              now (room_log rooms (currentRoom conn)))\<rparr>)"
  by (cases "rooms (currentRoom conn)")
     (simp_all add: on_draw_stroke_def getRoom_def room_log_def Let_def split_beta)

lemma on_undo_rooms:
  "fst (fst (on_undo now (rooms, conn))) =
     rooms(currentRoom conn \<mapsto>
       (fst (getRoom (currentRoom conn) now rooms))
         \<lparr>drawingState := snd (undo (room_log rooms (currentRoom conn)))\<rparr>)"
  by (cases "rooms (currentRoom conn)")
     (simp_all add: on_undo_def getRoom_def room_log_def Let_def split_beta)

lemma on_redo_rooms:
  "fst (fst (on_redo now (rooms, conn))) =
     rooms(currentRoom conn \<mapsto>
       (fst (getRoom (currentRoom conn) now rooms))
         \<lparr>drawingState := snd (redo (room_log rooms (currentRoom conn)))\<rparr>)"
  by (cases "rooms (currentRoom conn)")
     (simp_all add: on_redo_def getRoom_def room_log_def Let_def split_beta)

lemma on_clear_canvas_rooms:
  "fst (fst (on_clear_canvas now (rooms, conn))) =
     rooms(currentRoom conn \<mapsto>
       (fst (getRoom (currentRoom conn) now rooms))
         \<lparr>drawingState := snd (clear now (room_log rooms (currentRoom conn)))\<rparr>)"
  by (cases "rooms (currentRoom conn)")
     (simp_all add: on_clear_canvas_def getRoom_def room_log_def Let_def split_beta)

lemma rooms_ok_on_draw_stroke:
  "rooms_ok rooms \<Longrightarrow> rooms_ok (fst (fst (on_draw_stroke data now (rooms, conn))))"
  unfolding on_draw_stroke_rooms
  by (rule rooms_ok_upd) (simp_all add: log_ok_addOperation rooms_ok_room_log)

lemma rooms_ok_on_undo:
  "rooms_ok rooms \<Longrightarrow> rooms_ok (fst (fst (on_undo now (rooms, conn))))"
  unfolding on_undo_rooms
  by (rule rooms_ok_upd) (simp_all add: log_ok_undo rooms_ok_room_log)

lemma rooms_ok_on_redo:
  "rooms_ok rooms \<Longrightarrow> rooms_ok (fst (fst (on_redo now (rooms, conn))))"
  unfolding on_redo_rooms
  by (rule rooms_ok_upd) (simp_all add: log_ok_redo rooms_ok_room_log)

lemma rooms_ok_on_clear_canvas:
  "rooms_ok rooms \<Longrightarrow> rooms_ok (fst (fst (on_clear_canvas now (rooms, conn))))"
  unfolding on_clear_canvas_rooms
  by (rule rooms_ok_upd) (simp_all add: log_ok_clear rooms_ok_room_log)

lemma rooms_ok_on_cursor_move:
  "rooms_ok rooms \<Longrightarrow> rooms_ok (fst (fst (on_cursor_move cursor (rooms, conn))))"
  by (simp add: on_cursor_move_def rooms_ok_updateUserCursor)

lemma rooms_ok_on_disconnect:
  "rooms_ok rooms \<Longrightarrow> rooms_ok (fst (fst (on_disconnect (rooms, conn))))"
  by (simp add: on_disconnect_def rooms_ok_removeUser Let_def split: option.splits)

lemma rooms_ok_deliver:
  assumes "rooms_ok (gw_rooms g)"
    and "\<And>rooms conn. rooms_ok rooms \<Longrightarrow> rooms_ok (fst (fst (handler (rooms, conn))))"
  shows "rooms_ok (gw_rooms (fst (deliver handler sid g)))"
proof (cases "gw_conns g sid")
  case None
  with assms(1) show ?thesis by (simp add: deliver_def)
next
  case (Some conn)
  obtain rooms conn' out where h: "handler (gw_rooms g, conn) = ((rooms, conn'), out)"
    by (cases "handler (gw_rooms g, conn)") auto
  from assms(2) [OF assms(1), of conn] h have "rooms_ok rooms" by simp
  with Some h show ?thesis by (simp add: deliver_def)
qed

lemma rooms_ok_step:
  assumes "rooms_ok (gw_rooms g)"
  shows "rooms_ok (gw_rooms (fst (gateway_step g e)))"
proof (cases e)
  case (EConnection sid)
  with assms show ?thesis by simp
next
  case (EJoinRoom sid data now)
  with assms show ?thesis by (simp add: rooms_ok_deliver rooms_ok_on_join_room)
next
  case (EDrawStroke sid data now)
  with assms show ?thesis by (simp add: rooms_ok_deliver rooms_ok_on_draw_stroke)
next
  case (ECursorMove sid cursor)
  with assms show ?thesis by (simp add: rooms_ok_deliver rooms_ok_on_cursor_move)
next
  case (EUndo sid now)
  with assms show ?thesis by (simp add: rooms_ok_deliver rooms_ok_on_undo)
next
  case (ERedo sid now)
  with assms show ?thesis by (simp add: rooms_ok_deliver rooms_ok_on_redo)
next
  case (EClearCanvas sid now)
  with assms show ?thesis by (simp add: rooms_ok_deliver rooms_ok_on_clear_canvas)
next
  case (EDisconnect sid)
  have "rooms_ok (gw_rooms (fst (deliver on_disconnect sid g)))"
    using assms by (simp add: rooms_ok_deliver rooms_ok_on_disconnect)
  with EDisconnect show ?thesis by (simp add: split_beta)
next
  case (ETimer roomId)
  with assms show ?thesis by (simp add: rooms_ok_roomCleanup)
qed

lemma rooms_ok_foldl:
  "rooms_ok (gw_rooms g) \<Longrightarrow> rooms_ok (gw_rooms (foldl (\<lambda>g e. fst (gateway_step g e)) g events))"
  by (induction events arbitrary: g) (simp_all add: rooms_ok_step)

lemma rooms_ok_run: "rooms_ok (gw_rooms (gateway_run events))"
  unfolding gateway_run_def
  by (rule rooms_ok_foldl) (simp add: gateway_init_def rooms_ok_empty)

lemma on_draw_stroke_out:
  "snd (on_draw_stroke data now (rooms, conn)) =
     [(ToRoom (currentRoom conn),
       DrawStroke (fst (addOperation
              ([''type'' \<mapsto> JStr ''stroke'', ''userId'' \<mapsto> JStr (socket_id conn),
                ''userName'' \<mapsto> currentUser_name conn] ++ data)
              now (room_log rooms (currentRoom conn)))))]"
  by (simp add: on_draw_stroke_def Let_def split_beta getRoom_log)

lemma on_draw_stroke_conn: "snd (fst (on_draw_stroke data now (rooms, conn))) = conn"
  by (simp add: on_draw_stroke_def Let_def split_beta)

lemma on_undo_conn: "snd (fst (on_undo now (rooms, conn))) = conn"
  by (simp add: on_undo_def Let_def split_beta)

lemma on_redo_conn: "snd (fst (on_redo now (rooms, conn))) = conn"
  by (simp add: on_redo_def Let_def split_beta)

lemma on_clear_canvas_conn: "snd (fst (on_clear_canvas now (rooms, conn))) = conn"
  by (simp add: on_clear_canvas_def Let_def split_beta)

lemma on_undo_out:
  "snd (on_undo now (rooms, conn)) =
     (case fst (undo (room_log rooms (currentRoom conn))) of
        Some r \<Rightarrow> [(ToRoom (currentRoom conn), UndoMsg r)] | None \<Rightarrow> [])"
  by (simp add: on_undo_def Let_def split_beta getRoom_log)

lemma on_redo_out:
  "snd (on_redo now (rooms, conn)) =
     (case fst (redo (room_log rooms (currentRoom conn))) of
        Some r \<Rightarrow> [(ToRoom (currentRoom conn), RedoMsg r)] | None \<Rightarrow> [])"
  by (simp add: on_redo_def Let_def split_beta getRoom_log)


lemma room_log_upd: "room_log (rooms(roomId \<mapsto> r)) roomId = drawingState r"
  by (simp add: room_log_def)

lemma room_log_upd_other: "rid \<noteq> roomId \<Longrightarrow> room_log (rooms(roomId \<mapsto> r)) rid = room_log rooms rid"
  by (simp add: room_log_def)

lemma on_draw_stroke_log:
  "room_log (fst (fst (on_draw_stroke data now (rooms, conn)))) (currentRoom conn) =
     snd (addOperation
              ([''type'' \<mapsto> JStr ''stroke'', ''userId'' \<mapsto> JStr (socket_id conn),
                ''userName'' \<mapsto> currentUser_name conn] ++ data)
              now (room_log rooms (currentRoom conn)))"
  by (simp add: on_draw_stroke_rooms room_log_upd)




lemma getprop_id_addOperation:
  "getprop (fst (addOperation operation now s)) ''id'' = JNum (operationCounter s)"
  by (simp add: addOperation_def getprop_def Let_def)

lemma getprop_id_clear:
  "getprop (fst (clear now s)) ''id'' = JNum (operationCounter s)"
  by (simp add: clear_def getprop_def Let_def)

lemma rooms_ids:
  assumes "gw_rooms (gateway_run events) roomId = Some room"
  shows "map op_id (operations (drawingState room)) =
           map int [0..<length (operations (drawingState room))] \<and>
         operationCounter (drawingState room) = int (length (operations (drawingState room)))"
proof -
  have "rooms_ok (gw_rooms (gateway_run events))" by (rule rooms_ok_run)
  with assms have "log_ok (drawingState room)" unfolding rooms_ok_def by blast
  then show ?thesis by (simp add: log_ok_def)
qed

lemma rooms_log_ok:
  "gw_rooms (gateway_run events) roomId = Some room \<Longrightarrow> log_ok (drawingState room)"
  using rooms_ok_run [of events] unfolding rooms_ok_def by blast

lemma example_undo_in_room:
  "room_log (gw_rooms (gateway_run
       [EConnection ''a'', EConnection ''b'',
        EDrawStroke ''a'' Map.empty 1, EClearCanvas ''b'' 2, EUndo ''a'' 3])) ''default'' =
     \<lparr>operations =
        [\<lparr>op_id = 0, op_timestamp = 1,
          op_spread = [''type'' \<mapsto> JStr ''stroke'', ''userId'' \<mapsto> JStr ''a'',
                       ''userName'' \<mapsto> JUndefined] ++ Map.empty\<rparr>,
         \<lparr>op_id = 1, op_timestamp = 2, op_spread = [''type'' \<mapsto> JStr ''clear'']\<rparr>],
      operationCounter = 2, undoneOperations = {1}\<rparr>"
  by (simp add: gateway_run_def gateway_init_def deliver_def on_connection_def
      on_draw_stroke_rooms on_clear_canvas_rooms on_undo_rooms on_draw_stroke_conn
      on_clear_canvas_conn on_undo_conn split_beta room_log_def
      getRoom_def Let_def addOperation_def clear_def undo_def DrawingState_new_def
      currentUser_name_def)

lemma example_undo_in_room_exists:
  "gw_rooms (gateway_run
       [EConnection ''a'', EConnection ''b'',
        EDrawStroke ''a'' Map.empty 1, EClearCanvas ''b'' 2, EUndo ''a'' 3]) ''default'' \<noteq> None"
  by (simp add: gateway_run_def gateway_init_def deliver_def on_connection_def
      on_draw_stroke_rooms on_clear_canvas_rooms on_undo_rooms on_draw_stroke_conn
      on_clear_canvas_conn on_undo_conn split_beta)

text \<open>
  Claim C3. In every log state that calls of \<open>addOperation\<close>, \<open>clear\<close>,
  \<open>undo\<close> and \<open>redo\<close> reach from the empty log, and so in the log of every room of the
  running gateway, \<open>redo\<close> returns nothing when the
  tombstone set is empty, and otherwise removes the greatest tombstoned id and returns
  it. With 0, 1, 2 tombstoned, four calls return 2, 1, 0 and nothing.
\<close>
theorem redo_picks_max_tombstoned:
  "redo (run calls) =
     (if undoneOperations (run calls) = {} then (None, run calls)
      else (Some \<lparr>change_type = ''redo'', operationId = Max (undoneOperations (run calls))\<rparr>,
            (run calls)\<lparr>undoneOperations :=
               undoneOperations (run calls) - {Max (undoneOperations (run calls))}\<rparr>)) \<and>
   (\<forall>roomId room. gw_rooms (gateway_run events) roomId = Some room \<longrightarrow>
      redo (drawingState room) =
        (if undoneOperations (drawingState room) = {} then (None, drawingState room)
         else (Some \<lparr>change_type = ''redo'',
                     operationId = Max (undoneOperations (drawingState room))\<rparr>,
               (drawingState room)\<lparr>undoneOperations :=
                  undoneOperations (drawingState room) -
                    {Max (undoneOperations (drawingState room))}\<rparr>))) \<and>
   (let s = run [AddOperation a ta, AddOperation b tb, AddOperation c tc, Undo, Undo, Undo];
        r1 = redo s; r2 = redo (snd r1); r3 = redo (snd r2); r4 = redo (snd r3)
    in undoneOperations s = {0, 1, 2} \<and>
       fst r1 = Some \<lparr>change_type = ''redo'', operationId = 2\<rparr> \<and>
       undoneOperations (snd r1) = {0, 1} \<and>
       fst r2 = Some \<lparr>change_type = ''redo'', operationId = 1\<rparr> \<and>
       undoneOperations (snd r2) = {0} \<and>
       fst r3 = Some \<lparr>change_type = ''redo'', operationId = 0\<rparr> \<and>
       undoneOperations (snd r3) = {} \<and>
       fst r4 = None \<and> snd r4 = snd r3)"
proof -
  have rooms: "\<forall>roomId room. gw_rooms (gateway_run events) roomId = Some room \<longrightarrow>
      redo (drawingState room) =
        (if undoneOperations (drawingState room) = {} then (None, drawingState room)
         else (Some \<lparr>change_type = ''redo'',
                     operationId = Max (undoneOperations (drawingState room))\<rparr>,
               (drawingState room)\<lparr>undoneOperations :=
                  undoneOperations (drawingState room) -
                    {Max (undoneOperations (drawingState room))}\<rparr>))"
  proof (intro allI impI)
    fix roomId room
    assume "gw_rooms (gateway_run events) roomId = Some room"
    then have "log_ok (drawingState room)" by (rule rooms_log_ok)
    then show "redo (drawingState room) =
        (if undoneOperations (drawingState room) = {} then (None, drawingState room)
         else (Some \<lparr>change_type = ''redo'',
                     operationId = Max (undoneOperations (drawingState room))\<rparr>,
               (drawingState room)\<lparr>undoneOperations :=
                  undoneOperations (drawingState room) -
                    {Max (undoneOperations (drawingState room))}\<rparr>))"
      by (rule redo_log_ok)
  qed
  from redo_log_ok [OF log_ok_run, of calls] rooms example_four_redos [of a ta b tb c tc]
  show ?thesis by (intro conjI)
qed

theorem redo_picks_max_tombstoned_witness:
  "fst (redo (run [AddOperation Map.empty 1, AddOperation Map.empty 2, Undo, Undo])) =
     Some \<lparr>change_type = ''redo'', operationId = 1\<rparr> \<and>
   redo (run []) = (None, run []) \<and>
   fst (redo (room_log (gw_rooms (gateway_run
       [EConnection ''a'', EConnection ''b'',
        EDrawStroke ''a'' Map.empty 1, EClearCanvas ''b'' 2, EUndo ''a'' 3])) ''default'')) =
     Some \<lparr>change_type = ''redo'', operationId = 1\<rparr>"
proof -
  let ?g = "gateway_run [EConnection ''a'', EConnection ''b'',
        EDrawStroke ''a'' Map.empty 1, EClearCanvas ''b'' 2, EUndo ''a'' 3]"
  have u: "undoneOperations (run [AddOperation Map.empty 1, AddOperation Map.empty 2, Undo, Undo]) = {0, 1}"
    by (simp add: run_def DrawingState_new_def addOperation_def undo_def Let_def)
  have e: "undoneOperations (run []) = {}"
    by (simp add: run_def DrawingState_new_def)
  obtain room where r: "gw_rooms ?g ''default'' = Some room"
    using example_undo_in_room_exists by blast
  then have rl: "drawingState room = room_log (gw_rooms ?g) ''default''"
    by (simp add: room_log_def)
  have ur: "undoneOperations (room_log (gw_rooms ?g) ''default'') = {1}"
    by (simp add: example_undo_in_room)
  from redo_picks_max_tombstoned [THEN conjunct2, THEN conjunct1, rule_format, OF r]
  have 3: "fst (redo (room_log (gw_rooms ?g) ''default'')) =
     Some \<lparr>change_type = ''redo'', operationId = 1\<rparr>"
    unfolding rl by (simp add: ur)
  from redo_picks_max_tombstoned [of "[AddOperation Map.empty 1, AddOperation Map.empty 2, Undo, Undo]", THEN conjunct1]
    redo_picks_max_tombstoned [of "[]", THEN conjunct1] u e 3
  show ?thesis by simp
qed

text \<open>
  Claim C7. After any sequence of calls from the empty log, every tombstoned id is the
  id of an operation in the log (the same holds for the log of every room of the
  running gateway); and in any state \<open>undo\<close> and \<open>redo\<close> change
  nothing but the tombstone set: the operations, their order and the counter stay.
\<close>
theorem tombstones_within_log:
  "undoneOperations (run calls) \<subseteq> op_id ` set (operations (run calls)) \<and>
   (\<forall>roomId room. gw_rooms (gateway_run events) roomId = Some room \<longrightarrow>
      undoneOperations (drawingState room) \<subseteq> op_id ` set (operations (drawingState room))) \<and>
   snd (undo s) = s\<lparr>undoneOperations := undoneOperations (snd (undo s))\<rparr> \<and>
   snd (redo s) = s\<lparr>undoneOperations := undoneOperations (snd (redo s))\<rparr> \<and>
   operations (snd (undo s)) = operations s \<and>
   operationCounter (snd (undo s)) = operationCounter s \<and>
   operations (snd (redo s)) = operations s \<and>
   operationCounter (snd (redo s)) = operationCounter s"
proof -
  have "log_ok (run calls)" by (rule log_ok_run)
  then have 1: "undoneOperations (run calls) \<subseteq> op_id ` set (operations (run calls))"
    by (simp add: log_ok_def)
  have 2: "\<forall>roomId room. gw_rooms (gateway_run events) roomId = Some room \<longrightarrow>
      undoneOperations (drawingState room) \<subseteq> op_id ` set (operations (drawingState room))"
  proof (intro allI impI)
    fix roomId room
    assume "gw_rooms (gateway_run events) roomId = Some room"
    then have "log_ok (drawingState room)" by (rule rooms_log_ok)
    then show "undoneOperations (drawingState room) \<subseteq> op_id ` set (operations (drawingState room))"
      by (simp add: log_ok_def)
  qed
  from 1 2 undo_only_tombstones [of s] redo_only_tombstones [of s]
    undo_keeps_log [of s, THEN conjunct1] undo_keeps_log [of s, THEN conjunct2]
    redo_keeps_log [of s, THEN conjunct1] redo_keeps_log [of s, THEN conjunct2]
  show ?thesis by (intro conjI)
qed

theorem tombstones_within_log_witness:
  "undoneOperations (run [AddOperation Map.empty 1, Clear 2, Undo]) = {1} \<and>
   undoneOperations (run [AddOperation Map.empty 1, Clear 2, Undo])
     \<subseteq> op_id ` set (operations (run [AddOperation Map.empty 1, Clear 2, Undo])) \<and>
   undoneOperations (room_log (gw_rooms (gateway_run
       [EConnection ''a'', EConnection ''b'',
        EDrawStroke ''a'' Map.empty 1, EClearCanvas ''b'' 2, EUndo ''a'' 3])) ''default'') = {1} \<and>
   undoneOperations (room_log (gw_rooms (gateway_run
       [EConnection ''a'', EConnection ''b'',
        EDrawStroke ''a'' Map.empty 1, EClearCanvas ''b'' 2, EUndo ''a'' 3])) ''default'')
     \<subseteq> op_id ` set (operations (room_log (gw_rooms (gateway_run
       [EConnection ''a'', EConnection ''b'',
        EDrawStroke ''a'' Map.empty 1, EClearCanvas ''b'' 2, EUndo ''a'' 3])) ''default''))"
proof -
  let ?g = "gateway_run [EConnection ''a'', EConnection ''b'',
        EDrawStroke ''a'' Map.empty 1, EClearCanvas ''b'' 2, EUndo ''a'' 3]"
  have 1: "undoneOperations (run [AddOperation Map.empty 1, Clear 2, Undo]) = {1}"
    by (simp add: run_def DrawingState_new_def addOperation_def clear_def undo_def Let_def)
  obtain room where r: "gw_rooms ?g ''default'' = Some room"
    using example_undo_in_room_exists by blast
  then have rl: "drawingState room = room_log (gw_rooms ?g) ''default''"
    by (simp add: room_log_def)
  have ur: "undoneOperations (room_log (gw_rooms ?g) ''default'') = {1}"
    by (simp add: example_undo_in_room)
  note 2 = tombstones_within_log [of "[AddOperation Map.empty 1, Clear 2, Undo]", THEN conjunct1]
  note 3 = tombstones_within_log [THEN conjunct2, THEN conjunct1, rule_format, OF r, unfolded rl]
  from 1 2 ur 3 show ?thesis by (intro conjI)
qed

text \<open>
  Claim C4. After any sequence of calls on one log, and in every room after any
  sequence of events from any sockets, the ids in the log are \<open>0, 1, 2, ...\<close> in
  order (strokes and clears alike) and the counter is their number. The id of a stored
  operation is the counter of the log, whatever the payload holds: also a payload with
  an \<open>id\<close> property of its own.
\<close>
theorem ids_consecutive_from_zero:
  "map op_id (operations (run calls)) = map int [0..<length (operations (run calls))] \<and>
   operationCounter (run calls) = int (length (operations (run calls))) \<and>
   (\<forall>roomId room. gw_rooms (gateway_run events) roomId = Some room \<longrightarrow>
      map op_id (operations (drawingState room)) =
        map int [0..<length (operations (drawingState room))] \<and>
      operationCounter (drawingState room) = int (length (operations (drawingState room)))) \<and>
   getprop (fst (addOperation operation now s)) ''id'' = JNum (operationCounter s) \<and>
   getprop (fst (clear now s)) ''id'' = JNum (operationCounter s) \<and>
   (\<exists>op. snd (on_draw_stroke data now (rooms, conn)) = [(ToRoom (currentRoom conn), DrawStroke op)] \<and>
      operations (room_log (fst (fst (on_draw_stroke data now (rooms, conn)))) (currentRoom conn)) =
        operations (room_log rooms (currentRoom conn)) @ [op] \<and>
      getprop op ''id'' = JNum (operationCounter (room_log rooms (currentRoom conn))))"
proof -
  have "log_ok (run calls)" by (rule log_ok_run)
  then have 1: "map op_id (operations (run calls)) = map int [0..<length (operations (run calls))]"
    and 2: "operationCounter (run calls) = int (length (operations (run calls)))"
    by (simp_all add: log_ok_def)
  have 3: "\<forall>roomId room. gw_rooms (gateway_run events) roomId = Some room \<longrightarrow>
      map op_id (operations (drawingState room)) =
        map int [0..<length (operations (drawingState room))] \<and>
      operationCounter (drawingState room) = int (length (operations (drawingState room)))"
    using rooms_ids by blast
  let ?op = "fst (addOperation
              ([''type'' \<mapsto> JStr ''stroke'', ''userId'' \<mapsto> JStr (socket_id conn),
                ''userName'' \<mapsto> currentUser_name conn] ++ data)
              now (room_log rooms (currentRoom conn)))"
  have 4: "snd (on_draw_stroke data now (rooms, conn)) = [(ToRoom (currentRoom conn), DrawStroke ?op)] \<and>
      operations (room_log (fst (fst (on_draw_stroke data now (rooms, conn)))) (currentRoom conn)) =
        operations (room_log rooms (currentRoom conn)) @ [?op] \<and>
      getprop ?op ''id'' = JNum (operationCounter (room_log rooms (currentRoom conn)))"
    by (simp add: on_draw_stroke_out on_draw_stroke_log addOperation_state getprop_id_addOperation)
  from 1 2 3 4 getprop_id_addOperation [of operation now s] getprop_id_clear [of now s]
  show ?thesis by blast
qed

lemma example_stroke_then_clear:
  "room_log (gw_rooms (gateway_run
       [EConnection ''a'', EConnection ''b'',
        EDrawStroke ''a'' [''id'' \<mapsto> JNum 99] 1, EClearCanvas ''b'' 2])) ''default'' =
     \<lparr>operations =
        [\<lparr>op_id = 0, op_timestamp = 1,
          op_spread = [''type'' \<mapsto> JStr ''stroke'', ''userId'' \<mapsto> JStr ''a'',
                       ''userName'' \<mapsto> JUndefined] ++ [''id'' \<mapsto> JNum 99]\<rparr>,
         \<lparr>op_id = 1, op_timestamp = 2, op_spread = [''type'' \<mapsto> JStr ''clear'']\<rparr>],
      operationCounter = 2, undoneOperations = {}\<rparr>"
  by (simp add: gateway_run_def gateway_init_def deliver_def on_connection_def
      on_draw_stroke_rooms on_clear_canvas_rooms split_beta room_log_def getRoom_def Let_def
      addOperation_def clear_def DrawingState_new_def currentUser_name_def)

theorem ids_consecutive_from_zero_witness:
  "gw_rooms (gateway_run
       [EConnection ''a'', EConnection ''b'',
        EDrawStroke ''a'' [''id'' \<mapsto> JNum 99] 1, EClearCanvas ''b'' 2]) ''default'' \<noteq> None \<and>
   map op_id (operations (room_log (gw_rooms (gateway_run
       [EConnection ''a'', EConnection ''b'',
        EDrawStroke ''a'' [''id'' \<mapsto> JNum 99] 1, EClearCanvas ''b'' 2])) ''default'')) = [0, 1]"
proof -
  let ?g = "gateway_run [EConnection ''a'', EConnection ''b'',
        EDrawStroke ''a'' [''id'' \<mapsto> JNum 99] 1, EClearCanvas ''b'' 2]"
  have ex: "gw_rooms ?g ''default'' \<noteq> None"
    by (simp add: gateway_run_def gateway_init_def deliver_def on_connection_def
      on_draw_stroke_rooms on_clear_canvas_rooms split_beta)
  then obtain room where r: "gw_rooms ?g ''default'' = Some room" by blast
  have len: "length (operations (room_log (gw_rooms ?g) ''default'')) = 2"
    by (simp add: example_stroke_then_clear)
  from r have rl: "room_log (gw_rooms ?g) ''default'' = drawingState room"
    by (simp add: room_log_def)
  from ids_consecutive_from_zero [THEN conjunct2, THEN conjunct2, THEN conjunct1, rule_format, OF r]
  have "map op_id (operations (drawingState room)) =
        map int [0..<length (operations (drawingState room))]" by simp
  with len rl have "map op_id (operations (room_log (gw_rooms ?g) ''default'')) = map int [0..<2]"
    by simp
  also have "map int [0..<2] = [0, 1]" by (simp add: upt_rec)
  finally show ?thesis using ex by simp
qed


lemma example_spoof_conn:
  "gw_conns (gateway_run
      [EConnection ''s1'',
       EJoinRoom ''s1'' \<lparr>jd_roomId = Some ''r'', jd_userName = JStr ''alice''\<rparr> 100,
       EDrawStroke ''s1''
         [''points'' \<mapsto> JPoints [(0, 0), (5, 5)], ''userId'' \<mapsto> JStr ''s2'',
          ''userName'' \<mapsto> JStr ''bob''] 101]) ''s1'' =
   Some \<lparr>socket_id = ''s1'', currentRoom = ''r'',
         currentUser = Some \<lparr>user_id = ''s1'', user_name = JStr ''alice'',
           user_color = ''#FF6B6B'', user_cursor = JNull, user_joinedAt = 100\<rparr>\<rparr>"
  by (simp add: gateway_run_def gateway_init_def deliver_def on_connection_def
      on_draw_stroke_conn on_join_room_def addUser_def getRoom_def userColors_def
      split_beta Let_def)

lemma example_join_state:
  "fst (on_join_room \<lparr>jd_roomId = Some ''r'', jd_userName = JStr ''alice''\<rparr> 100
          (Map.empty, on_connection ''s1'')) =
   (Map.empty(''r'' \<mapsto> \<lparr>room_id = ''r'', drawingState = DrawingState_new,
        users = [(''s1'', \<lparr>user_id = ''s1'', user_name = JStr ''alice'',
           user_color = ''#FF6B6B'', user_cursor = JNull, user_joinedAt = 100\<rparr>)],
        usedColors = {''#FF6B6B''}, createdAt = 100\<rparr>),
    \<lparr>socket_id = ''s1'', currentRoom = ''r'',
         currentUser = Some \<lparr>user_id = ''s1'', user_name = JStr ''alice'',
           user_color = ''#FF6B6B'', user_cursor = JNull, user_joinedAt = 100\<rparr>\<rparr>)"
  by (simp add: on_connection_def on_join_room_def addUser_def getRoom_def userColors_def
      split_beta Let_def)

text \<open>
  Claim C5 asks that a stored stroke carries the socket id and the registered name of
  its sender whatever the payload holds. Here socket \<open>s1\<close> joins room \<open>r\<close> as
  \<open>alice\<close> and then sends a stroke whose payload has \<open>userId\<close> \<open>s2\<close> and
  \<open>userName\<close> \<open>bob\<close>: the stored and broadcast operation carries \<open>s2\<close> and
  \<open>bob\<close>, because the handler spreads the payload after its own properties.
\<close>
theorem draw_stroke_identity_overridden:
  "(let joined = fst (on_join_room \<lparr>jd_roomId = Some ''r'', jd_userName = JStr ''alice''\<rparr> 100
                       (Map.empty, on_connection ''s1''));
        drawn = on_draw_stroke
                  [''points'' \<mapsto> JPoints [(0, 0), (5, 5)], ''userId'' \<mapsto> JStr ''s2'',
                   ''userName'' \<mapsto> JStr ''bob''] 101 joined
    in socket_id (snd joined) = ''s1'' \<and>
       currentUser_name (snd joined) = JStr ''alice'' \<and>
       map (\<lambda>op. (getprop op ''id'', getprop op ''userId'', getprop op ''userName''))
         (operations (room_log (fst (fst drawn)) ''r'')) = [(JNum 0, JStr ''s2'', JStr ''bob'')] \<and>
       map (\<lambda>(t, m). (t, case m of DrawStroke op \<Rightarrow> (getprop op ''userId'', getprop op ''userName'')
                              | _ \<Rightarrow> (JNull, JNull)))
         (snd drawn) = [(ToRoom ''r'', (JStr ''s2'', JStr ''bob''))])"
  unfolding example_join_state
  by (simp add: on_draw_stroke_rooms on_draw_stroke_out room_log_def getRoom_def Let_def
      addOperation_def DrawingState_new_def getprop_def get_def currentUser_name_def map_add_def)

lemma undo_noop:
  "(\<forall>op \<in> set (operations s). op_id op \<in> undoneOperations s) \<Longrightarrow> undo s = (None, s)"
proof -
  assume "\<forall>op \<in> set (operations s). op_id op \<in> undoneOperations s"
  then have "undo_loop (operations s) (undoneOperations s) (length (operations s)) = None"
    by (simp add: undo_loop_None)
  then show ?thesis by (simp add: undo_def)
qed

lemma redo_loop_empty: "redo_loop ops {} l = l"
  by (induction ops arbitrary: l) simp_all

lemma redo_noop: "undoneOperations s = {} \<Longrightarrow> redo s = (None, s)"
  by (simp add: redo_def redo_loop_empty)

lemma undo_None_state: "fst (undo s) = None \<Longrightarrow> snd (undo s) = s"
  by (simp add: undo_def split: option.splits)

lemma redo_None_state: "fst (redo s) = None \<Longrightarrow> snd (redo s) = s"
  by (simp add: redo_def Let_def split: if_splits)

lemma room_log_same:
  assumes "drawingState r = room_log rooms cr"
  shows "room_log (rooms(cr \<mapsto> r)) roomId = room_log rooms roomId"
  using assms by (cases "roomId = cr") (simp_all add: room_log_def)

lemma on_undo_noop:
  assumes "\<forall>op \<in> set (operations (room_log rooms (currentRoom conn))).
             op_id op \<in> undoneOperations (room_log rooms (currentRoom conn))"
  shows "snd (on_undo now (rooms, conn)) = [] \<and>
         snd (fst (on_undo now (rooms, conn))) = conn \<and>
         (\<forall>roomId. room_log (fst (fst (on_undo now (rooms, conn)))) roomId = room_log rooms roomId) \<and>
         (rooms (currentRoom conn) \<noteq> None \<longrightarrow> fst (fst (on_undo now (rooms, conn))) = rooms)"
proof -
  have u: "undo (room_log rooms (currentRoom conn)) = (None, room_log rooms (currentRoom conn))"
    using assms by (rule undo_noop)
  have "snd (on_undo now (rooms, conn)) = []" by (simp add: on_undo_out u)
  moreover have "\<forall>roomId. room_log (fst (fst (on_undo now (rooms, conn)))) roomId = room_log rooms roomId"
    unfolding on_undo_rooms u by (simp add: room_log_same)
  moreover have "rooms (currentRoom conn) \<noteq> None \<longrightarrow> fst (fst (on_undo now (rooms, conn))) = rooms"
    unfolding on_undo_rooms u by (auto simp: getRoom_def room_log_def map_upd_triv)
  ultimately show ?thesis by (simp add: on_undo_conn)
qed

lemma on_redo_noop:
  assumes "undoneOperations (room_log rooms (currentRoom conn)) = {}"
  shows "snd (on_redo now (rooms, conn)) = [] \<and>
         snd (fst (on_redo now (rooms, conn))) = conn \<and>
         (\<forall>roomId. room_log (fst (fst (on_redo now (rooms, conn)))) roomId = room_log rooms roomId) \<and>
         (rooms (currentRoom conn) \<noteq> None \<longrightarrow> fst (fst (on_redo now (rooms, conn))) = rooms)"
proof -
  have u: "redo (room_log rooms (currentRoom conn)) = (None, room_log rooms (currentRoom conn))"
    using assms by (rule redo_noop)
  have "snd (on_redo now (rooms, conn)) = []" by (simp add: on_redo_out u)
  moreover have "\<forall>roomId. room_log (fst (fst (on_redo now (rooms, conn)))) roomId = room_log rooms roomId"
    unfolding on_redo_rooms u by (simp add: room_log_same)
  moreover have "rooms (currentRoom conn) \<noteq> None \<longrightarrow> fst (fst (on_redo now (rooms, conn))) = rooms"
    unfolding on_redo_rooms u by (auto simp: getRoom_def room_log_def map_upd_triv)
  ultimately show ?thesis by (simp add: on_redo_conn)
qed

text \<open>
  Claim C8. When every entry of the log is tombstoned (or the log is empty),
  \<open>undo\<close> returns nothing and the state it returns is the one it was given; the
  same for \<open>redo\<close> with an empty tombstone set. The handlers then send nothing to
  anybody, keep the variables of the connection, and leave the log of every room as
  it was (a room that exists is left untouched altogether).
\<close>
theorem undo_redo_noop_silent:
  "((\<forall>op \<in> set (operations s). op_id op \<in> undoneOperations s) \<longrightarrow> undo s = (None, s)) \<and>
   (undoneOperations s = {} \<longrightarrow> redo s = (None, s)) \<and>
   (fst (undo s) = None \<longrightarrow> snd (undo s) = s) \<and>
   (fst (redo s) = None \<longrightarrow> snd (redo s) = s) \<and>
   ((\<forall>op \<in> set (operations (room_log rooms (currentRoom conn))).
        op_id op \<in> undoneOperations (room_log rooms (currentRoom conn))) \<longrightarrow>
      snd (on_undo now (rooms, conn)) = [] \<and>
      snd (fst (on_undo now (rooms, conn))) = conn \<and>
      (\<forall>roomId. room_log (fst (fst (on_undo now (rooms, conn)))) roomId = room_log rooms roomId) \<and>
      (rooms (currentRoom conn) \<noteq> None \<longrightarrow> fst (fst (on_undo now (rooms, conn))) = rooms)) \<and>
   (undoneOperations (room_log rooms (currentRoom conn)) = {} \<longrightarrow>
      snd (on_redo now (rooms, conn)) = [] \<and>
      snd (fst (on_redo now (rooms, conn))) = conn \<and>
      (\<forall>roomId. room_log (fst (fst (on_redo now (rooms, conn)))) roomId = room_log rooms roomId) \<and>
      (rooms (currentRoom conn) \<noteq> None \<longrightarrow> fst (fst (on_redo now (rooms, conn))) = rooms))"
  using undo_noop [of s] redo_noop [of s] undo_None_state [of s] redo_None_state [of s]
    on_undo_noop [of rooms conn now] on_redo_noop [of rooms conn now]
  by blast

theorem undo_redo_noop_silent_witness:
  "undo DrawingState_new = (None, DrawingState_new) \<and>
   redo DrawingState_new = (None, DrawingState_new) \<and>
   snd (on_undo 5 (Map.empty, on_connection ''s1'')) = [] \<and>
   room_log (fst (fst (on_undo 5 (Map.empty, on_connection ''s1'')))) ''default'' = DrawingState_new \<and>
   snd (on_redo 5 (Map.empty, on_connection ''s1'')) = [] \<and>
   room_log (fst (fst (on_redo 5 (Map.empty, on_connection ''s1'')))) ''default'' = DrawingState_new"
proof -
  have a: "\<forall>op \<in> set (operations DrawingState_new). op_id op \<in> undoneOperations DrawingState_new"
    by (simp add: DrawingState_new_def)
  have b: "undoneOperations DrawingState_new = {}" by (simp add: DrawingState_new_def)
  have l: "room_log Map.empty (currentRoom (on_connection ''s1'')) = DrawingState_new"
    by (simp add: room_log_def)
  have l': "room_log Map.empty ''default'' = DrawingState_new"
    by (simp add: room_log_def)
  note t = undo_redo_noop_silent [of DrawingState_new Map.empty "on_connection ''s1''" 5]
  from t a have 1: "undo DrawingState_new = (None, DrawingState_new)" by blast
  from t b have 2: "redo DrawingState_new = (None, DrawingState_new)" by blast
  from t a l have 3: "snd (on_undo 5 (Map.empty, on_connection ''s1'')) = [] \<and>
      (\<forall>roomId. room_log (fst (fst (on_undo 5 (Map.empty, on_connection ''s1'')))) roomId = room_log Map.empty roomId)"
    by simp
  from t b l have 4: "snd (on_redo 5 (Map.empty, on_connection ''s1'')) = [] \<and>
      (\<forall>roomId. room_log (fst (fst (on_redo 5 (Map.empty, on_connection ''s1'')))) roomId = room_log Map.empty roomId)"
    by simp
  from 1 2 3 4 l' show ?thesis by simp
qed









section \<open>Colour allocation\<close>

lemma filter_first:
  "i < length xs \<Longrightarrow> P (xs ! i) \<Longrightarrow> (\<forall>j<i. \<not> P (xs ! j)) \<Longrightarrow>
   0 < length (filter P xs) \<and> filter P xs ! 0 = xs ! i"
proof (induction xs arbitrary: i)
  case Nil
  then show ?case by simp
next
  case (Cons x xs)
  show ?case
  proof (cases i)
    case 0
    with Cons.prems show ?thesis by simp
  next
    case (Suc k)
    with Cons.prems have nx: "\<not> P x" by auto
    from Suc Cons.prems have "k < length xs" "P (xs ! k)" "\<forall>j<k. \<not> P (xs ! j)" by auto
    from Cons.IH [OF this] nx Suc show ?thesis by simp
  qed
qed

lemma addUser_user:
  "fst (addUser roomId socketId name now rooms) =
     (let room = fst (getRoom roomId now rooms);
          availableColors = filter (\<lambda>color. color \<notin> usedColors room) userColors
      in \<lparr>user_id = socketId,
          user_name = (if js_truthy name then name
                       else JStr (''User'' @ string_of_nat (length (users room) + 1))),
          user_color = (if length availableColors > 0 then availableColors ! 0
                        else userColors ! (length (users room) mod length userColors)),
          user_cursor = JNull, user_joinedAt = now\<rparr>)"
  by (simp add: addUser_def Let_def split_beta)

lemma addUser_rooms:
  "snd (addUser roomId socketId name now rooms) =
     rooms(roomId \<mapsto>
       (fst (getRoom roomId now rooms))
         \<lparr>usedColors := insert (user_color (fst (addUser roomId socketId name now rooms)))
                          (usedColors (fst (getRoom roomId now rooms))),
          users := map_set (users (fst (getRoom roomId now rooms))) socketId
                     (fst (addUser roomId socketId name now rooms))\<rparr>)"
  by (cases "rooms roomId") (simp_all add: addUser_def getRoom_def Let_def split_beta)

lemma map_of_map_set: "map_of (map_set m k v) k = Some v"
  by (induction m) auto

lemma addUser_color_free:
  assumes "i < length userColors"
    and "userColors ! i \<notin> usedColors (fst (getRoom roomId now rooms))"
    and "\<forall>j<i. userColors ! j \<in> usedColors (fst (getRoom roomId now rooms))"
  shows "user_color (fst (addUser roomId socketId name now rooms)) = userColors ! i"
proof -
  let ?P = "\<lambda>color. color \<notin> usedColors (fst (getRoom roomId now rooms))"
  have "0 < length (filter ?P userColors) \<and> filter ?P userColors ! 0 = userColors ! i"
    using assms by (intro filter_first) auto
  then show ?thesis by (simp add: addUser_user Let_def)
qed

lemma addUser_color_exhausted:
  assumes "set userColors \<subseteq> usedColors (fst (getRoom roomId now rooms))"
  shows "user_color (fst (addUser roomId socketId name now rooms)) =
           userColors ! (length (users (fst (getRoom roomId now rooms))) mod length userColors)"
proof -
  let ?P = "\<lambda>color. color \<notin> usedColors (fst (getRoom roomId now rooms))"
  have "filter ?P userColors = []" using assms by (auto simp: filter_empty_conv)
  then show ?thesis by (simp add: addUser_user Let_def)
qed

lemma addUser_registered:
  "\<exists>room'. snd (addUser roomId socketId name now rooms) roomId = Some room' \<and>
      map_of (users room') socketId = Some (fst (addUser roomId socketId name now rooms)) \<and>
      user_color (fst (addUser roomId socketId name now rooms)) \<in> usedColors room' \<and>
      user_color (fst (addUser roomId socketId name now rooms)) \<in> set userColors"
proof -
  let ?room = "fst (getRoom roomId now rooms)"
  let ?P = "\<lambda>color. color \<notin> usedColors ?room"
  let ?u = "fst (addUser roomId socketId name now rooms)"
  have "user_color ?u \<in> set userColors"
  proof (cases "filter ?P userColors")
    case Nil
    then have "user_color ?u = userColors ! (length (users ?room) mod length userColors)"
      by (simp add: addUser_user Let_def)
    moreover have "length (users ?room) mod length userColors < length userColors"
      by (simp add: userColors_def)
    ultimately show ?thesis by (simp only: nth_mem)
  next
    case (Cons c cs)
    then have "user_color ?u = c" by (simp add: addUser_user Let_def)
    moreover have "c \<in> set (filter ?P userColors)" using Cons by simp
    ultimately show ?thesis by simp
  qed
  then show ?thesis by (subst addUser_rooms)+ (simp add: map_of_map_set)
qed

lemma example_thirteen_joins:
  "map user_color (getRoomUsers ''r'' (gw_rooms (gateway_run
     [EConnection ''a'', EJoinRoom ''a'' \<lparr>jd_roomId = Some ''r'', jd_userName = JNull\<rparr> 1,
      EConnection ''b'', EJoinRoom ''b'' \<lparr>jd_roomId = Some ''r'', jd_userName = JNull\<rparr> 2,
      EConnection ''c'', EJoinRoom ''c'' \<lparr>jd_roomId = Some ''r'', jd_userName = JNull\<rparr> 3,
      EConnection ''d'', EJoinRoom ''d'' \<lparr>jd_roomId = Some ''r'', jd_userName = JNull\<rparr> 4,
      EConnection ''e'', EJoinRoom ''e'' \<lparr>jd_roomId = Some ''r'', jd_userName = JNull\<rparr> 5,
      EConnection ''f'', EJoinRoom ''f'' \<lparr>jd_roomId = Some ''r'', jd_userName = JNull\<rparr> 6,
      EConnection ''g'', EJoinRoom ''g'' \<lparr>jd_roomId = Some ''r'', jd_userName = JNull\<rparr> 7,
      EConnection ''h'', EJoinRoom ''h'' \<lparr>jd_roomId = Some ''r'', jd_userName = JNull\<rparr> 8,
      EConnection ''i'', EJoinRoom ''i'' \<lparr>jd_roomId = Some ''r'', jd_userName = JNull\<rparr> 9,
      EConnection ''j'', EJoinRoom ''j'' \<lparr>jd_roomId = Some ''r'', jd_userName = JNull\<rparr> 10,
      EConnection ''k'', EJoinRoom ''k'' \<lparr>jd_roomId = Some ''r'', jd_userName = JNull\<rparr> 11,
      EConnection ''l'', EJoinRoom ''l'' \<lparr>jd_roomId = Some ''r'', jd_userName = JNull\<rparr> 12,
      EConnection ''m'', EJoinRoom ''m'' \<lparr>jd_roomId = Some ''r'', jd_userName = JNull\<rparr> 13]))) =
   userColors @ [userColors ! 0]"
  by (simp add: gateway_run_def gateway_init_def deliver_def on_connection_def
      on_join_room_def addUser_def getRoom_def getRoomUsers_def userColors_def
      split_beta Let_def)

text \<open>
  Claim C9. \<open>addUser\<close> gives the new user the first palette colour that is not in
  the used-colour set of the room. When every palette colour is in that set it still
  returns a registered user, whose colour is the palette entry at the number of members
  before the join, modulo the palette size. Thirteen sockets joining one room get the
  twelve palette colours in order and then the first colour again, which the first
  member still holds.
\<close>
theorem color_first_free_else_modulo:
  "(\<forall>i. i < length userColors \<and>
        userColors ! i \<notin> usedColors (fst (getRoom roomId now rooms)) \<and>
        (\<forall>j<i. userColors ! j \<in> usedColors (fst (getRoom roomId now rooms))) \<longrightarrow>
        user_color (fst (addUser roomId socketId name now rooms)) = userColors ! i) \<and>
   (set userColors \<subseteq> usedColors (fst (getRoom roomId now rooms)) \<longrightarrow>
      user_color (fst (addUser roomId socketId name now rooms)) =
        userColors ! (length (users (fst (getRoom roomId now rooms))) mod length userColors)) \<and>
   (\<exists>room'. snd (addUser roomId socketId name now rooms) roomId = Some room' \<and>
      map_of (users room') socketId = Some (fst (addUser roomId socketId name now rooms)) \<and>
      user_color (fst (addUser roomId socketId name now rooms)) \<in> usedColors room' \<and>
      user_color (fst (addUser roomId socketId name now rooms)) \<in> set userColors) \<and>
   map user_color (getRoomUsers ''r'' (gw_rooms (gateway_run
     [EConnection ''a'', EJoinRoom ''a'' \<lparr>jd_roomId = Some ''r'', jd_userName = JNull\<rparr> 1,
      EConnection ''b'', EJoinRoom ''b'' \<lparr>jd_roomId = Some ''r'', jd_userName = JNull\<rparr> 2,
      EConnection ''c'', EJoinRoom ''c'' \<lparr>jd_roomId = Some ''r'', jd_userName = JNull\<rparr> 3,
      EConnection ''d'', EJoinRoom ''d'' \<lparr>jd_roomId = Some ''r'', jd_userName = JNull\<rparr> 4,
      EConnection ''e'', EJoinRoom ''e'' \<lparr>jd_roomId = Some ''r'', jd_userName = JNull\<rparr> 5,
      EConnection ''f'', EJoinRoom ''f'' \<lparr>jd_roomId = Some ''r'', jd_userName = JNull\<rparr> 6,
      EConnection ''g'', EJoinRoom ''g'' \<lparr>jd_roomId = Some ''r'', jd_userName = JNull\<rparr> 7,
      EConnection ''h'', EJoinRoom ''h'' \<lparr>jd_roomId = Some ''r'', jd_userName = JNull\<rparr> 8,
      EConnection ''i'', EJoinRoom ''i'' \<lparr>jd_roomId = Some ''r'', jd_userName = JNull\<rparr> 9,
      EConnection ''j'', EJoinRoom ''j'' \<lparr>jd_roomId = Some ''r'', jd_userName = JNull\<rparr> 10,
      EConnection ''k'', EJoinRoom ''k'' \<lparr>jd_roomId = Some ''r'', jd_userName = JNull\<rparr> 11,
      EConnection ''l'', EJoinRoom ''l'' \<lparr>jd_roomId = Some ''r'', jd_userName = JNull\<rparr> 12,
      EConnection ''m'', EJoinRoom ''m'' \<lparr>jd_roomId = Some ''r'', jd_userName = JNull\<rparr> 13]))) =
   userColors @ [userColors ! 0]"
proof -
  have a: "\<forall>i. i < length userColors \<and>
        userColors ! i \<notin> usedColors (fst (getRoom roomId now rooms)) \<and>
        (\<forall>j<i. userColors ! j \<in> usedColors (fst (getRoom roomId now rooms))) \<longrightarrow>
        user_color (fst (addUser roomId socketId name now rooms)) = userColors ! i"
  proof (intro allI impI, elim conjE)
    fix i
    assume "i < length userColors"
      and "userColors ! i \<notin> usedColors (fst (getRoom roomId now rooms))"
      and "\<forall>j<i. userColors ! j \<in> usedColors (fst (getRoom roomId now rooms))"
    then show "user_color (fst (addUser roomId socketId name now rooms)) = userColors ! i"
      by (rule addUser_color_free)
  qed
  have b: "set userColors \<subseteq> usedColors (fst (getRoom roomId now rooms)) \<longrightarrow>
      user_color (fst (addUser roomId socketId name now rooms)) =
        userColors ! (length (users (fst (getRoom roomId now rooms))) mod length userColors)"
    by (intro impI) (rule addUser_color_exhausted)
  from a b addUser_registered [of roomId socketId name now rooms] example_thirteen_joins
  show ?thesis by (intro conjI)
qed

theorem color_first_free_else_modulo_witness:
  "user_color (fst (addUser ''r'' ''b'' JNull 2
      (Map.empty(''r'' \<mapsto> \<lparr>room_id = ''r'', drawingState = DrawingState_new,
         users = [(''a'', \<lparr>user_id = ''a'', user_name = JStr ''User1'', user_color = ''#FF6B6B'',
                    user_cursor = JNull, user_joinedAt = 1\<rparr>)],
         usedColors = {''#FF6B6B''}, createdAt = 1\<rparr>)))) = ''#4ECDC4'' \<and>
   user_color (fst (addUser ''r'' ''b'' JNull 2
      (Map.empty(''r'' \<mapsto> \<lparr>room_id = ''r'', drawingState = DrawingState_new,
         users = [(''a'', \<lparr>user_id = ''a'', user_name = JStr ''User1'', user_color = ''#FF6B6B'',
                    user_cursor = JNull, user_joinedAt = 1\<rparr>)],
         usedColors = set userColors, createdAt = 1\<rparr>)))) = ''#4ECDC4''"
proof -
  let ?r1 = "\<lparr>room_id = ''r'', drawingState = DrawingState_new,
         users = [(''a'', \<lparr>user_id = ''a'', user_name = JStr ''User1'', user_color = ''#FF6B6B'',
                    user_cursor = JNull, user_joinedAt = 1\<rparr>)],
         usedColors = {''#FF6B6B''}, createdAt = 1\<rparr>"
  let ?r2 = "\<lparr>room_id = ''r'', drawingState = DrawingState_new,
         users = [(''a'', \<lparr>user_id = ''a'', user_name = JStr ''User1'', user_color = ''#FF6B6B'',
                    user_cursor = JNull, user_joinedAt = 1\<rparr>)],
         usedColors = set userColors, createdAt = 1\<rparr>"
  have h1: "1 < length userColors \<and>
        userColors ! 1 \<notin> usedColors (fst (getRoom ''r'' 2 (Map.empty(''r'' \<mapsto> ?r1)))) \<and>
        (\<forall>j<1. userColors ! j \<in> usedColors (fst (getRoom ''r'' 2 (Map.empty(''r'' \<mapsto> ?r1)))))"
    by (simp add: getRoom_def userColors_def)
  have h2: "set userColors \<subseteq> usedColors (fst (getRoom ''r'' 2 (Map.empty(''r'' \<mapsto> ?r2))))"
    by (simp add: getRoom_def)
  have l2: "length (users (fst (getRoom ''r'' 2 (Map.empty(''r'' \<mapsto> ?r2))))) mod length userColors = 1"
    by (simp add: getRoom_def userColors_def)
  have c: "userColors ! 1 = ''#4ECDC4''" by (simp add: userColors_def)
  from color_first_free_else_modulo [of "''r''" 2 "Map.empty(''r'' \<mapsto> ?r1)" "''b''" JNull,
      THEN conjunct1, rule_format, OF h1]
    color_first_free_else_modulo [of "''r''" 2 "Map.empty(''r'' \<mapsto> ?r2)" "''b''" JNull,
      THEN conjunct2, THEN conjunct1, rule_format, OF h2]
  show ?thesis by (simp only: l2 c simp_thms)
qed

section \<open>The fold of the replay engine\<close>


lemma redraw_loop_clear_head:
  "op_id op \<notin> undone \<Longrightarrow> getprop op ''type'' = JStr ''clear'' \<Longrightarrow>
   redraw_loop (op # ops) undone cv = redraw_loop ops undone []"
  by simp










end
